theory Spec2Isabelle
  imports Complex_Main "HOL-Library.Sublist" "HOL-Library.Multiset"
begin

section \<open>Values of the host language\<close>

text \<open>
  A JavaScript \<open>number\<close>. Finite values are kept exact (a rational); the rounding of
  double arithmetic is outside the model. The three special values are kept, because
  the checks of the program compare numbers with \<open><\<close> and \<open>></\<close>, and every comparison
  with \<open>NaN\<close> is false.
\<close>

datatype jsnum = Num rat | PosInf | NegInf | NaN

fun js_lt :: "jsnum \<Rightarrow> jsnum \<Rightarrow> bool" where
  "js_lt NaN _ = False"
| "js_lt _ NaN = False"
| "js_lt (Num a) (Num b) = (a < b)"
| "js_lt (Num a) PosInf = True"
| "js_lt (Num a) NegInf = False"
| "js_lt PosInf _ = False"
| "js_lt NegInf NegInf = False"
| "js_lt NegInf _ = True"

fun js_le :: "jsnum \<Rightarrow> jsnum \<Rightarrow> bool" where
  "js_le NaN _ = False"
| "js_le _ NaN = False"
| "js_le (Num a) (Num b) = (a \<le> b)"
| "js_le (Num a) PosInf = True"
| "js_le (Num a) NegInf = False"
| "js_le PosInf PosInf = True"
| "js_le PosInf _ = False"
| "js_le NegInf _ = True"

definition js_gt :: "jsnum \<Rightarrow> jsnum \<Rightarrow> bool" where
  "js_gt a b = js_lt b a"

definition js_ge :: "jsnum \<Rightarrow> jsnum \<Rightarrow> bool" where
  "js_ge a b = js_le b a"

fun js_neg :: "jsnum \<Rightarrow> jsnum" where
  "js_neg (Num a) = Num (- a)"
| "js_neg PosInf = NegInf"
| "js_neg NegInf = PosInf"
| "js_neg NaN = NaN"

fun js_add :: "jsnum \<Rightarrow> jsnum \<Rightarrow> jsnum" where
  "js_add NaN _ = NaN"
| "js_add _ NaN = NaN"
| "js_add (Num a) (Num b) = Num (a + b)"
| "js_add PosInf NegInf = NaN"
| "js_add NegInf PosInf = NaN"
| "js_add PosInf _ = PosInf"
| "js_add NegInf _ = NegInf"
| "js_add _ PosInf = PosInf"
| "js_add _ NegInf = NegInf"

definition js_sub :: "jsnum \<Rightarrow> jsnum \<Rightarrow> jsnum" where
  "js_sub a b = js_add a (js_neg b)"

text \<open>The running tot \<open>let t = 0; for (...) t += x\<close>.\<close>

definition js_sum :: "jsnum list \<Rightarrow> jsnum" where
  "js_sum xs = foldl js_add (Num 0) xs"

text \<open>Reading \<open>xs[i]\<close>: \<open>undefined\<close> (here \<open>None\<close>) outside the array.\<close>

definition lookup :: "'a list \<Rightarrow> int \<Rightarrow> 'a option" where
  "lookup xs i = (if 0 \<le> i \<and> i < int (length xs) then Some (xs ! nat i) else None)"

text \<open>A number inside a template string: decimal digits, with a sign.\<close>

definition digit :: "nat \<Rightarrow> char" where
  "digit d = char_of (48 + d)"

fun show_nat :: "nat \<Rightarrow> string" where
  "show_nat n = (if n < 10 then [digit n] else show_nat (n div 10) @ [digit (n mod 10)])"

declare show_nat.simps [simp del]

definition show_int :: "int \<Rightarrow> string" where
  "show_int i = (if i < 0 then CHR ''-'' # show_nat (nat (- i)) else show_nat (nat i))"

section \<open>Data model (types/index.ts)\<close>

text \<open>
  Dates are milliseconds since the epoch. Field names carry the name of their interface
  where two interfaces share one.
\<close>

record Applicant =
  applicant_id :: string
  applicant_name :: string
  occupation :: string
  skills :: "string list"
  personalityTraits :: "string list"
  submittedAt :: nat

record Team =
  team_id :: string
  team_name :: string
  applicants :: "Applicant list"
  team_createdAt :: nat
  isComplete :: bool
  team_sessionId :: string

record RoleDefinition =
  role_id :: string
  role_name :: string
  role_description :: "string option"

record ScoreMatrix =
  sm_teamId :: string
  scores :: "jsnum list list"
  sm_generatedAt :: nat

record Assignment =
  applicantId :: string
  roleId :: string
  score :: jsnum
  justification :: "string option"

record TeamAssignment =
  ta_teamId :: string
  assignments :: "Assignment list"
  totalScore :: jsnum
  ta_generatedAt :: nat
  justificationsGenerated :: bool

section \<open>The assigner (lib/assigner.ts)\<close>

text \<open>
  The body of \<open>assignRoles\<close> calls \<open>munkres(costMatrix)\<close>. What the name \<open>munkres\<close> is
  bound to is decided by the import in line 1 of the file, outside that body, so the
  binding is a parameter of the model: applied to the cost matrix it returns a list of
  \<open>[row, column]\<close> index pairs, or the call throws (\<open>Inl\<close> the message of the error).
\<close>

type_synonym munkres = "jsnum list list \<Rightarrow> string + (int \<times> int) list"

text \<open>
  The binding the repository has. Line 1 of the assigner is the named import
  \<open>import { munkres } from 'munkres-js'\<close>. The package munkres-js assigns its solver
  function to \<open>module.exports\<close>, and that function has no property called \<open>munkres\<close>;
  the imported name is therefore \<open>undefined\<close>, and the call \<open>munkres(costMatrix)\<close> in
  line 31 throws a TypeError before any solver runs. \<open>msg\<close> is the message of that
  TypeError; its wording belongs to the engine and to the way the import was compiled
  (\<open>munkres is not a function\<close>, for one).
\<close>

definition imported_munkres :: "string \<Rightarrow> munkres" where
  "imported_munkres msg costs = Inl msg"

definition costMatrix :: "jsnum list list \<Rightarrow> jsnum list list" where
  "costMatrix m = map (\<lambda>row. map (\<lambda>score. js_sub (Num 100) score) row) m"

text \<open>
  The loop \<open>for (const [applicantIndex, roleIndex] of hungarianResult)\<close> with its two
  accumulators. Reading a row of the matrix that does not exist throws a TypeError,
  which the enclosing \<open>catch\<close> turns into an error result; a cell that does not exist
  reads as \<open>undefined\<close> and adds as \<open>NaN\<close>.
\<close>

fun build_assignments ::
  "Team \<Rightarrow> RoleDefinition list \<Rightarrow> ScoreMatrix \<Rightarrow> (int \<times> int) list \<Rightarrow>
   Assignment list \<Rightarrow> jsnum \<Rightarrow> string + (Assignment list \<times> jsnum)" where
  "build_assignments team roles sm [] asgs tot = Inr (asgs, tot)"
| "build_assignments team roles sm ((applicantIndex, roleIndex) # rest) asgs tot =
     (if applicantIndex < 0 \<or> applicantIndex \<ge> 10 \<or> roleIndex < 0 \<or> roleIndex \<ge> 10
      then Inl (''Invalid assignment indices: ['' @ show_int applicantIndex @ '', ''
                @ show_int roleIndex @ '']'')
      else
        (case lookup (scores sm) applicantIndex of
           None \<Rightarrow> Inl ''Assignment failed: TypeError''
         | Some row \<Rightarrow>
            (case lookup (applicants team) applicantIndex of
               None \<Rightarrow> Inl (''Applicant not found at index '' @ show_int applicantIndex)
             | Some applicant \<Rightarrow>
                (case lookup roles roleIndex of
                   None \<Rightarrow> Inl (''Role not found at index '' @ show_int roleIndex)
                 | Some role \<Rightarrow>
                    (let sc = (case lookup row roleIndex of None \<Rightarrow> NaN | Some s \<Rightarrow> s)
                     in build_assignments team roles sm rest
                          (asgs @ [\<lparr>applicantId = applicant_id applicant,
                                    roleId = role_id role,
                                    score = sc,
                                    justification = None\<rparr>])
                          (js_add tot sc))))))"

text \<open>
  \<open>Assigner.assignRoles\<close>. \<open>now\<close> is the clock reading that \<open>new Date()\<close> gives the
  result; the size of a \<open>Set\<close> of ids is the length of the list without duplicates.
\<close>

definition assignRoles ::
  "munkres \<Rightarrow> nat \<Rightarrow> Team \<Rightarrow> RoleDefinition list \<Rightarrow> ScoreMatrix \<Rightarrow> string + TeamAssignment" where
  "assignRoles munkres now team roles scoreMatrix =
     (if length (applicants team) \<noteq> 10 then Inl ''Team must have exactly 10 applicants''
      else if length roles \<noteq> 10 then Inl ''Must have exactly 10 roles''
      else if length (scores scoreMatrix) \<noteq> 10
              \<or> \<not> list_all (\<lambda>row. length row = 10) (scores scoreMatrix)
           then Inl ''Score matrix must be 10x10''
      else
        (case munkres (costMatrix (scores scoreMatrix)) of
           Inl msg \<Rightarrow> Inl (''Assignment failed: '' @ msg)
         | Inr hungarianResult \<Rightarrow>
            if length hungarianResult \<noteq> 10
            then Inl ''Hungarian algorithm failed to find valid assignment''
            else
              (case build_assignments team roles scoreMatrix hungarianResult [] (Num 0) of
                 Inl e \<Rightarrow> Inl e
               | Inr (asgs, tot) \<Rightarrow>
                  if length (remdups (map applicantId asgs)) \<noteq> 10
                  then Inl ''Not all applicants were assigned uniquely''
                  else if length (remdups (map roleId asgs)) \<noteq> 10
                  then Inl ''Not all roles were assigned uniquely''
                  else Inr \<lparr>ta_teamId = team_id team,
                            assignments = asgs,
                            totalScore = tot,
                            ta_generatedAt = now,
                            justificationsGenerated = False\<rparr>)))"

text \<open>What one pair of the solver's result becomes.\<close>

definition pairing :: "Team \<Rightarrow> RoleDefinition list \<Rightarrow> ScoreMatrix \<Rightarrow> int \<times> int \<Rightarrow> Assignment" where
  "pairing team roles sm p =
     \<lparr>applicantId = applicant_id (applicants team ! nat (fst p)),
      roleId = role_id (roles ! nat (snd p)),
      score = scores sm ! nat (fst p) ! nat (snd p),
      justification = None\<rparr>"

text \<open>The cell of a matrix at an index pair, and the cell of a score matrix.\<close>

definition mcell :: "jsnum list list \<Rightarrow> int \<times> int \<Rightarrow> jsnum" where
  "mcell m p = m ! nat (fst p) ! nat (snd p)"

definition cell :: "ScoreMatrix \<Rightarrow> int \<times> int \<Rightarrow> jsnum" where
  "cell sm p = mcell (scores sm) p"

definition in_range :: "int \<times> int \<Rightarrow> bool" where
  "in_range p = (0 \<le> fst p \<and> fst p < 10 \<and> 0 \<le> snd p \<and> snd p < 10)"

section \<open>Strings\<close>

text \<open>
  A string is a list of code units, and a character of the model is a code unit below
  256 (the Latin-1 range of Unicode); text with code units from 256 on is outside the
  model. On this range \<open>toLowerCase\<close> maps \<open>A\<close> to \<open>Z\<close> and the capital letters
  \<open>U+00C0\<close> to \<open>U+00DE\<close>, the multiplication sign \<open>U+00D7\<close> apart, to the code unit
  32 places up, and leaves every other code unit as it is. \<open>includes\<close> is the substring
  test.
\<close>

definition lower_char :: "char \<Rightarrow> char" where
  "lower_char c = (let n = (of_char c :: nat)
                   in if (65 \<le> n \<and> n \<le> 90) \<or> (192 \<le> n \<and> n \<le> 222 \<and> n \<noteq> 215)
                      then char_of (n + 32) else c)"

definition toLowerCase :: "string \<Rightarrow> string" where
  "toLowerCase s = map lower_char s"

fun str_includes :: "string \<Rightarrow> string \<Rightarrow> bool" where
  "str_includes [] sub = (sub = [])"
| "str_includes (c # cs) sub = (prefix sub (c # cs) \<or> str_includes cs sub)"

section \<open>Replies of the oracle\<close>

text \<open>
  What \<open>JSON.parse\<close> returns. Object members are kept in order, a later member with
  the same key winning as in \<open>JSON.parse\<close>.
\<close>

datatype json = JNull | JBool bool | JNum jsnum | JStr string | JArr "json list"
  | JObj "(string \<times> json) list"

text \<open>
  \<open>JSON.parse\<close> produces finite numbers and, for literals beyond the double range,
  the infinities; it never produces \<open>NaN\<close>, for which JSON has no literal.
\<close>

fun from_JSON_parse :: "json \<Rightarrow> bool" where
  "from_JSON_parse (JNum x) = (x \<noteq> NaN)"
| "from_JSON_parse (JArr xs) = list_all from_JSON_parse xs"
| "from_JSON_parse (JObj kvs) = list_all (\<lambda>kv. from_JSON_parse (snd kv)) kvs"
| "from_JSON_parse _ = True"

text \<open>
  One round trip to the oracle, up to the parsed reply: \<open>fetch\<close> rejects (with a
  message); the status is not ok (status and body text); reading the response throws;
  the first choice has no content; the content has no \<open>[...]\<close> substring;
  \<open>JSON.parse\<close> throws (the text is the error converted to a string); or a value is
  parsed. The oracle of a call is a function from the attempt number to the reply.
\<close>

datatype reply =
    FetchThrows string
  | NotOk nat string
  | BodyThrows string
  | NoContent
  | NoJsonArray
  | ParseThrows string
  | Parsed json

fun reply_from_JSON_parse :: "reply \<Rightarrow> bool" where
  "reply_from_JSON_parse (Parsed v) = from_JSON_parse v"
| "reply_from_JSON_parse _ = True"

text \<open>The body of a \<open>try\<close>: it throws an error with a message, or it returns.\<close>

datatype 'a tried = Throws string | Returns 'a

text \<open>A finished call: its result, how many times the body ran, and the delays slept.\<close>

record 'a run =
  outcome :: "string + 'a"
  attempts :: nat
  delays :: "nat list"

text \<open>
  \<open>isRetryableError\<close>, the private classifier that the scorer and the justifier both
  carry: a substring test on the lower-cased message of the error that was thrown.
\<close>

definition isRetryableError :: "string \<Rightarrow> bool" where
  "isRetryableError message =
     (let errorMessage = toLowerCase message;
          isNetworkError = str_includes errorMessage ''network'' \<or> str_includes errorMessage ''timeout''
                           \<or> str_includes errorMessage ''fetch'';
          isRateLimited = str_includes errorMessage ''rate limit'' \<or> str_includes errorMessage ''429''
                          \<or> str_includes errorMessage ''too many requests'';
          isServerError = str_includes errorMessage ''500'' \<or> str_includes errorMessage ''502''
                          \<or> str_includes errorMessage ''503'' \<or> str_includes errorMessage ''504''
      in isNetworkError \<or> isRateLimited \<or> isServerError)"

text \<open>The ten substrings of the classifier as one list.\<close>

definition retry_words :: "string list" where
  "retry_words = [''network'', ''timeout'', ''fetch'', ''rate limit'', ''429'', ''too many requests'',
                  ''500'', ''502'', ''503'', ''504'']"

definition MAX_RETRIES :: nat where "MAX_RETRIES = 3"
definition RETRY_DELAY :: nat where "RETRY_DELAY = 1000"

text \<open>
  The retry policy in closed form, to be compared with the three recursive functions
  of the program that carry it. A call makes attempt 0, then 1, and so on; it goes on
  to the next attempt exactly when the attempt threw an error that \<open>isRetryableError\<close>
  accepts and fewer than three retries have been made. So the number of retries is the
  length of the longest run of retryable failures at the start of attempts 0, 1, 2.
  Before retry number \<open>i\<close> (counted from 0) the call sleeps \<open>1000 * 2^i\<close> ms. Its result
  is that of its last attempt; an error thrown there is reported through \<open>describe\<close>,
  which is given the number of retries made and the message.
\<close>

definition retryable_failure :: "'a tried \<Rightarrow> bool" where
  "retryable_failure t = (case t of Throws m \<Rightarrow> isRetryableError m | Returns r \<Rightarrow> False)"

definition retries_made :: "(nat \<Rightarrow> 'a tried) \<Rightarrow> nat" where
  "retries_made attempt = length (takeWhile (\<lambda>k. retryable_failure (attempt k)) [0..<MAX_RETRIES])"

definition policy_run :: "(nat \<Rightarrow> (string + 'a) tried) \<Rightarrow> (nat \<Rightarrow> string \<Rightarrow> string) \<Rightarrow> 'a run" where
  "policy_run attempt describe =
     (let k = retries_made attempt
      in \<lparr>outcome = (case attempt k of Returns r \<Rightarrow> r | Throws m \<Rightarrow> Inl (describe k m)),
          attempts = k + 1,
          delays = map (\<lambda>i. RETRY_DELAY * 2 ^ i) [0..<k]\<rparr>)"

section \<open>The scorer (lib/scorer.ts)\<close>

definition row_error :: "nat \<Rightarrow> string" where
  "row_error i = ''Row '' @ show_nat i @ '' must have exactly 10 scores''"

definition score_error :: "nat \<Rightarrow> nat \<Rightarrow> string" where
  "score_error i j = ''Invalid score at ['' @ show_nat i @ '']['' @ show_nat j
                       @ '']: must be number between 0-100''"

fun check_cells :: "nat \<Rightarrow> nat \<Rightarrow> json list \<Rightarrow> string + jsnum list" where
  "check_cells i j [] = Inr []"
| "check_cells i j (c # cs) =
     (case c of
        JNum s \<Rightarrow>
          if js_lt s (Num 0) \<or> js_gt s (Num 100) then Inl (score_error i j)
          else (case check_cells i (j + 1) cs of Inl e \<Rightarrow> Inl e | Inr row \<Rightarrow> Inr (s # row))
      | _ \<Rightarrow> Inl (score_error i j))"

fun check_rows :: "nat \<Rightarrow> json list \<Rightarrow> string + jsnum list list" where
  "check_rows i [] = Inr []"
| "check_rows i (r # rs) =
     (case r of
        JArr cells \<Rightarrow>
          if length cells \<noteq> 10 then Inl (row_error i)
          else (case check_cells i 0 cells of
                  Inl e \<Rightarrow> Inl e
                | Inr row \<Rightarrow> (case check_rows (i + 1) rs of Inl e \<Rightarrow> Inl e | Inr rows \<Rightarrow> Inr (row # rows)))
      | _ \<Rightarrow> Inl (row_error i))"

definition check_matrix :: "json \<Rightarrow> string + jsnum list list" where
  "check_matrix parsedScores =
     (case parsedScores of
        JArr rows \<Rightarrow> if length rows \<noteq> 10 then Inl ''Score matrix must be 10x10'' else check_rows 0 rows
      | _ \<Rightarrow> Inl ''Score matrix must be 10x10'')"

definition score_attempt :: "Team \<Rightarrow> RoleDefinition list \<Rightarrow> reply \<Rightarrow> nat \<Rightarrow> (string + ScoreMatrix) tried" where
  "score_attempt team roles rep now =
     (if length (applicants team) \<noteq> 10 then Returns (Inl ''Team must have exactly 10 applicants'')
      else if length roles \<noteq> 10 then Returns (Inl ''Must have exactly 10 roles'')
      else
        (case rep of
           FetchThrows m \<Rightarrow> Throws m
         | NotOk status errorText \<Rightarrow>
             Throws (''OpenRouter API error: '' @ show_nat status @ '' - '' @ errorText)
         | BodyThrows m \<Rightarrow> Throws m
         | NoContent \<Rightarrow> Throws ''No response content from LLM''
         | NoJsonArray \<Rightarrow>
             Throws ''Failed to parse LLM response: Error: No JSON array found in response''
         | ParseThrows e \<Rightarrow> Throws (''Failed to parse LLM response: '' @ e)
         | Parsed parsedScores \<Rightarrow>
             (case check_matrix parsedScores of
                Inl m \<Rightarrow> Throws m
              | Inr sc \<Rightarrow> Returns (Inr \<lparr>sm_teamId = team_id team, scores = sc, sm_generatedAt = now\<rparr>))))"

function generateScoreMatrixWithRetry ::
  "Team \<Rightarrow> RoleDefinition list \<Rightarrow> (nat \<Rightarrow> reply) \<Rightarrow> (nat \<Rightarrow> nat) \<Rightarrow> nat \<Rightarrow> ScoreMatrix run" where
  "generateScoreMatrixWithRetry team roles oracle clock retryCount =
     (case score_attempt team roles (oracle retryCount) (clock retryCount) of
        Returns r \<Rightarrow> \<lparr>outcome = r, attempts = 1, delays = []\<rparr>
      | Throws m \<Rightarrow>
          if isRetryableError m \<and> retryCount < MAX_RETRIES
          then (let delay = RETRY_DELAY * 2 ^ retryCount;
                    rest = generateScoreMatrixWithRetry team roles oracle clock (retryCount + 1)
                in rest\<lparr>attempts := attempts rest + 1, delays := delay # delays rest\<rparr>)
          else \<lparr>outcome = Inl (''Scoring failed after '' @ show_nat retryCount @ '' retries: '' @ m),
                attempts = 1, delays = []\<rparr>)"
  by pat_completeness auto
termination
  by (relation "measure (\<lambda>(team, roles, oracle, clock, retryCount). MAX_RETRIES - retryCount)") auto

declare generateScoreMatrixWithRetry.simps [simp del]

definition generateScoreMatrix ::
  "Team \<Rightarrow> RoleDefinition list \<Rightarrow> (nat \<Rightarrow> reply) \<Rightarrow> (nat \<Rightarrow> nat) \<Rightarrow> ScoreMatrix run" where
  "generateScoreMatrix team roles oracle clock = generateScoreMatrixWithRetry team roles oracle clock 0"

text \<open>What the reply check lets through, cell by cell and row by row.\<close>

definition accepted_cell :: "json \<Rightarrow> bool" where
  "accepted_cell c = (case c of JNum s \<Rightarrow> \<not> js_lt s (Num 0) \<and> \<not> js_gt s (Num 100) | _ \<Rightarrow> False)"

definition accepted_row :: "json \<Rightarrow> bool" where
  "accepted_row r = (case r of JArr cells \<Rightarrow> length cells = 10 \<and> list_all accepted_cell cells | _ \<Rightarrow> False)"

definition validateScoreMatrix :: "json \<Rightarrow> bool" where
  "validateScoreMatrix v =
     (case v of
        JArr rows \<Rightarrow>
          length rows = 10 \<and>
          list_all (\<lambda>row. case row of
                       JArr cells \<Rightarrow>
                         length cells = 10 \<and>
                         list_all (\<lambda>c. case c of
                                      JNum s \<Rightarrow> js_ge s (Num 0) \<and> js_le s (Num 100)
                                    | _ \<Rightarrow> False) cells
                     | _ \<Rightarrow> False) rows
      | _ \<Rightarrow> False)"

text \<open>
  The shape the specification asks of a reply, in its words: a 10x10 nested numeric
  array, every cell a finite number in [0,100]; and the matrix such a value holds.
\<close>

definition finite_in_range :: "json \<Rightarrow> bool" where
  "finite_in_range c = (case c of JNum (Num q) \<Rightarrow> 0 \<le> q \<and> q \<le> 100 | _ \<Rightarrow> False)"

definition spec_matrix :: "json \<Rightarrow> bool" where
  "spec_matrix v =
     (case v of
        JArr rows \<Rightarrow>
          length rows = 10 \<and>
          list_all (\<lambda>row. case row of JArr cells \<Rightarrow> length cells = 10 \<and> list_all finite_in_range cells
                                     | _ \<Rightarrow> False) rows
      | _ \<Rightarrow> False)"

fun json_num :: "json \<Rightarrow> jsnum" where
  "json_num (JNum x) = x"
| "json_num _ = NaN"

fun json_items :: "json \<Rightarrow> json list" where
  "json_items (JArr xs) = xs"
| "json_items _ = []"

definition matrix_of :: "json \<Rightarrow> jsnum list list" where
  "matrix_of v = map (\<lambda>row. map json_num (json_items row)) (json_items v)"

section \<open>The justifier (lib/justifier.ts)\<close>

text \<open>
  Reading a property of a parsed value: \<open>None\<close> is \<open>undefined\<close>. Of the parsed values
  only objects have the two properties read here; reading a property of \<open>null\<close> throws
  and is handled where it happens.
\<close>

fun get_prop :: "json \<Rightarrow> string \<Rightarrow> json option" where
  "get_prop (JObj kvs) key = map_of (rev kvs) key"
| "get_prop _ key = None"

fun truthy :: "json \<Rightarrow> bool" where
  "truthy JNull = False"
| "truthy (JBool b) = b"
| "truthy (JNum x) = (x \<noteq> Num 0 \<and> x \<noteq> NaN)"
| "truthy (JStr s) = (s \<noteq> [])"
| "truthy (JArr xs) = True"
| "truthy (JObj kvs) = True"

text \<open>
  \<open>trim\<close> strips white space and line terminators from both ends. Below 256 these are
  tab, line feed, vertical tab, form feed, carriage return, space and the no-break
  space \<open>U+00A0\<close>.
\<close>

definition is_space :: "char \<Rightarrow> bool" where
  "is_space c = (c \<in> set [CHR '' '', CHR 0x09, CHR 0x0A, CHR 0x0B, CHR 0x0C, CHR 0x0D, CHR 0xA0])"

definition trim :: "string \<Rightarrow> string" where
  "trim s = rev (dropWhile is_space (rev (dropWhile is_space s)))"

text \<open>
  The loop that fills \<open>justificationMap\<close>. A key can be any parsed value; only string
  keys are ever looked up.
\<close>

fun build_map :: "json list \<Rightarrow> (json \<rightharpoonup> string) \<Rightarrow> string + (json \<rightharpoonup> string)" where
  "build_map [] m = Inr m"
| "build_map (e # es) m =
     (if e = JNull then Inl (''Cannot read properties of null (reading '' @ [CHR 0x27]
                               @ ''applicantId'' @ [CHR 0x27] @ '')'')
      else
        (case (get_prop e ''applicantId'', get_prop e ''justification'') of
           (Some a, Some t) \<Rightarrow>
             if \<not> truthy a \<or> \<not> truthy t
             then Inl ''Invalid justification format: missing applicantId or justification''
             else
               (case t of
                  JStr s \<Rightarrow>
                    if length s > 500 then Inl ''Justification must be a string under 500 characters''
                    else build_map es (m(a \<mapsto> trim s))
                | _ \<Rightarrow> Inl ''Justification must be a string under 500 characters'')
         | _ \<Rightarrow> Inl ''Invalid justification format: missing applicantId or justification''))"

fun update_assignments :: "(json \<rightharpoonup> string) \<Rightarrow> Assignment list \<Rightarrow> string + Assignment list" where
  "update_assignments jm [] = Inr []"
| "update_assignments jm (assign # rest) =
     (case jm (JStr (applicantId assign)) of
        None \<Rightarrow> Inl (''No justification found for applicant '' @ applicantId assign)
      | Some j \<Rightarrow>
          if j = [] then Inl (''No justification found for applicant '' @ applicantId assign)
          else (case update_assignments jm rest of
                  Inl e \<Rightarrow> Inl e
                | Inr us \<Rightarrow> Inr (assign\<lparr>justification := Some j\<rparr> # us)))"

text \<open>
  \<open>buildJustificationPrompt\<close> throws when a pairing names an applicant or a role that
  is not in the team or the role list; the prompt text itself goes to the oracle only.
\<close>

definition prompt_buildable :: "Team \<Rightarrow> RoleDefinition list \<Rightarrow> TeamAssignment \<Rightarrow> bool" where
  "prompt_buildable team roles assignment =
     list_all (\<lambda>assign. find (\<lambda>a. applicant_id a = applicantId assign) (applicants team) \<noteq> None
                       \<and> find (\<lambda>r. role_id r = roleId assign) roles \<noteq> None)
       (assignments assignment)"

definition justify_attempt ::
  "Team \<Rightarrow> RoleDefinition list \<Rightarrow> TeamAssignment \<Rightarrow> reply \<Rightarrow> (string + TeamAssignment) tried" where
  "justify_attempt team roles assignment rep =
     (if length (assignments assignment) \<noteq> 10
      then Throws ''Assignment must have exactly 10 assignments''
      else if \<not> prompt_buildable team roles assignment
      then Throws ''Invalid assignment: applicant or role not found''
      else
        (case rep of
           FetchThrows m \<Rightarrow> Throws m
         | NotOk status errorText \<Rightarrow>
             Throws (''OpenRouter API error: '' @ show_nat status @ '' - '' @ errorText)
         | BodyThrows m \<Rightarrow> Throws m
         | NoContent \<Rightarrow> Throws ''No response content from LLM''
         | NoJsonArray \<Rightarrow>
             Throws ''Failed to parse LLM response: Error: No JSON array found in response''
         | ParseThrows e \<Rightarrow> Throws (''Failed to parse LLM response: '' @ e)
         | Parsed parsedJustifications \<Rightarrow>
             (case parsedJustifications of
                JArr items \<Rightarrow>
                  if length items \<noteq> 10 then Throws ''Must have exactly 10 justifications''
                  else
                    (case build_map items Map.empty of
                       Inl m \<Rightarrow> Throws m
                     | Inr justificationMap \<Rightarrow>
                        (case update_assignments justificationMap (assignments assignment) of
                           Inl m \<Rightarrow> Throws m
                         | Inr updatedAssignments \<Rightarrow>
                             Returns (Inr (assignment\<lparr>assignments := updatedAssignments,
                                                       justificationsGenerated := True\<rparr>))))
              | _ \<Rightarrow> Throws ''Must have exactly 10 justifications'')))"

function generateJustificationsWithRetry ::
  "Team \<Rightarrow> RoleDefinition list \<Rightarrow> TeamAssignment \<Rightarrow> (nat \<Rightarrow> reply) \<Rightarrow> nat \<Rightarrow> TeamAssignment run" where
  "generateJustificationsWithRetry team roles assignment oracle retryCount =
     (case justify_attempt team roles assignment (oracle retryCount) of
        Returns r \<Rightarrow> \<lparr>outcome = r, attempts = 1, delays = []\<rparr>
      | Throws m \<Rightarrow>
          if isRetryableError m \<and> retryCount < MAX_RETRIES
          then (let delay = RETRY_DELAY * 2 ^ retryCount;
                    rest = generateJustificationsWithRetry team roles assignment oracle (retryCount + 1)
                in rest\<lparr>attempts := attempts rest + 1, delays := delay # delays rest\<rparr>)
          else \<lparr>outcome = Inl (''Justification generation failed after '' @ show_nat retryCount
                               @ '' retries: '' @ m),
                attempts = 1, delays = []\<rparr>)"
  by pat_completeness auto
termination
  by (relation "measure (\<lambda>(team, roles, assignment, oracle, retryCount). MAX_RETRIES - retryCount)") auto

declare generateJustificationsWithRetry.simps [simp del]

definition generateJustifications ::
  "Team \<Rightarrow> RoleDefinition list \<Rightarrow> TeamAssignment \<Rightarrow> (nat \<Rightarrow> reply) \<Rightarrow> TeamAssignment run" where
  "generateJustifications team roles assignment oracle =
     generateJustificationsWithRetry team roles assignment oracle 0"

text \<open>
  \<open>generateSingleJustificationWithRetry\<close>, the third unit of oracle work. Applicant,
  role and score go into the prompt only. The reply is used as text: \<open>fetch\<close> rejects;
  the status is not ok; reading the response throws; the first choice has no content;
  or it has a content string, which is trimmed.
\<close>

datatype completion =
    TextFetchThrows string
  | TextNotOk nat string
  | TextBodyThrows string
  | TextMissing
  | TextContent string

definition single_attempt :: "completion \<Rightarrow> (string + string) tried" where
  "single_attempt rep =
     (case rep of
        TextFetchThrows m \<Rightarrow> Throws m
      | TextNotOk status errorText \<Rightarrow>
          Throws (''OpenRouter API error: '' @ show_nat status @ '' - '' @ errorText)
      | TextBodyThrows m \<Rightarrow> Throws m
      | TextMissing \<Rightarrow> Throws ''No justification content from LLM''
      | TextContent content \<Rightarrow>
          (let j = trim content
           in if j = [] then Throws ''No justification content from LLM''
              else if length j > 500 then Throws ''Justification too long (max 500 characters)''
              else Returns (Inr j)))"

function generateSingleJustificationWithRetry ::
  "Applicant \<Rightarrow> RoleDefinition \<Rightarrow> jsnum \<Rightarrow> (nat \<Rightarrow> completion) \<Rightarrow> nat \<Rightarrow> string run" where
  "generateSingleJustificationWithRetry applicant role sc oracle retryCount =
     (case single_attempt (oracle retryCount) of
        Returns r \<Rightarrow> \<lparr>outcome = r, attempts = 1, delays = []\<rparr>
      | Throws m \<Rightarrow>
          if isRetryableError m \<and> retryCount < MAX_RETRIES
          then (let delay = RETRY_DELAY * 2 ^ retryCount;
                    rest = generateSingleJustificationWithRetry applicant role sc oracle (retryCount + 1)
                in rest\<lparr>attempts := attempts rest + 1, delays := delay # delays rest\<rparr>)
          else \<lparr>outcome = Inl (''Single justification generation failed after '' @ show_nat retryCount
                               @ '' retries: '' @ m),
                attempts = 1, delays = []\<rparr>)"
  by pat_completeness auto
termination
  by (relation "measure (\<lambda>(applicant, role, sc, oracle, retryCount). MAX_RETRIES - retryCount)") auto

declare generateSingleJustificationWithRetry.simps [simp del]

definition generateSingleJustification ::
  "Applicant \<Rightarrow> RoleDefinition \<Rightarrow> jsnum \<Rightarrow> (nat \<Rightarrow> completion) \<Rightarrow> string run" where
  "generateSingleJustification applicant role sc oracle =
     generateSingleJustificationWithRetry applicant role sc oracle 0"

text \<open>
  The reply the specification asks for, in its words: an array of exactly ten objects
  with an applicant id and a non-empty justification string of at most 500 characters,
  in which every applicant id of the assignment receives a justification that is not
  empty (once trimmed).
\<close>

definition justification_entry :: "json \<Rightarrow> bool" where
  "justification_entry e =
     (\<exists>kvs a t. e = JObj kvs \<and> get_prop e ''applicantId'' = Some a \<and> truthy a
                \<and> get_prop e ''justification'' = Some (JStr t) \<and> t \<noteq> [] \<and> length t \<le> 500)"

definition receives :: "json list \<Rightarrow> string \<Rightarrow> bool" where
  "receives items aid =
     (\<exists>e\<in>set items. \<exists>t. get_prop e ''applicantId'' = Some (JStr aid)
                        \<and> get_prop e ''justification'' = Some (JStr t)
                        \<and> trim t \<noteq> [] \<and> length t \<le> 500)"

definition spec_justifications :: "TeamAssignment \<Rightarrow> json \<Rightarrow> bool" where
  "spec_justifications assignment v =
     (\<exists>items. v = JArr items \<and> length items = 10 \<and> list_all justification_entry items
              \<and> (\<forall>p\<in>set (assignments assignment). receives items (applicantId p)))"

text \<open>
  The text a reply gives an applicant: that of the last entry of the array that carries
  the applicant's id (where two entries carry one id the later one counts), trimmed.
\<close>

definition given_text :: "json list \<Rightarrow> string \<Rightarrow> string option" where
  "given_text items aid =
     (case find (\<lambda>e. get_prop e ''applicantId'' = Some (JStr aid)) (rev items) of
        None \<Rightarrow> None
      | Some e \<Rightarrow> (case get_prop e ''justification'' of Some (JStr t) \<Rightarrow> Some (trim t) | _ \<Rightarrow> None))"

section \<open>The stores (lib/teamManager.ts, lib/sessionManager.ts)\<close>

datatype phase = part1 | part2

datatype assignment_status = pending | scoring | assigning | justifying | complete

record AssignmentSession =
  as_id :: string
  as_teamId :: string
  as_phase :: phase
  as_roles :: "RoleDefinition list"
  scoreMatrix :: "ScoreMatrix option"
  assignment :: "TeamAssignment option"
  status :: assignment_status
  as_createdAt :: nat

datatype session_status = active | ended | archived

record SessionStats =
  totalTeams :: nat
  completeTeams :: nat
  totalApplicants :: nat
  assignedTeams :: nat
  lastActivity :: nat

text \<open>
  The administrative session that owns teams. Its description, settings, creator and
  end date are not read or written by the operations modelled here and are left out.
\<close>

record Session =
  session_id :: string
  session_name :: string
  session_status :: session_status
  session_createdAt :: nat
  stats :: SessionStats

text \<open>
  A JavaScript \<open>Map\<close> keeps its entries in insertion order; \<open>set\<close> on a present key
  replaces the value in place, on a new key appends.
\<close>

fun map_set :: "'k \<Rightarrow> 'v \<Rightarrow> ('k \<times> 'v) list \<Rightarrow> ('k \<times> 'v) list" where
  "map_set k v [] = [(k, v)]"
| "map_set k v (p # ps) = (if fst p = k then (k, v) # ps else p # map_set k v ps)"

definition map_delete :: "'k \<Rightarrow> ('k \<times> 'v) list \<Rightarrow> ('k \<times> 'v) list" where
  "map_delete k ps = filter (\<lambda>p. fst p \<noteq> k) ps"

text \<open>The three module-level maps.\<close>

record store =
  teams :: "(string \<times> Team) list"
  sessions :: "(string \<times> AssignmentSession) list"
  groups :: "(string \<times> Session) list"

definition DEFAULT_ROLES :: "string list" where
  "DEFAULT_ROLES = [''Team Leader'', ''Technical Specialist'', ''Creative Director'',
     ''Strategy Advisor'', ''Data Analyst'', ''Project Coordinator'', ''Quality Assurance'',
     ''Communications Lead'', ''Resource Manager'', ''Innovation Driver'']"

definition show_session_status :: "session_status \<Rightarrow> string" where
  "show_session_status s = (case s of active \<Rightarrow> ''active'' | ended \<Rightarrow> ''ended'' | archived \<Rightarrow> ''archived'')"

text \<open>\<open>SessionManager.validateActiveSession\<close>: \<open>None\<close> is valid, \<open>Some\<close> the error.\<close>

definition validateActiveSession :: "string \<Rightarrow> store \<Rightarrow> string option" where
  "validateActiveSession sessionId st =
     (case map_of (groups st) sessionId of
        None \<Rightarrow> Some ''Session not found''
      | Some session \<Rightarrow>
          if session_status session \<noteq> active
          then Some (''Session is '' @ show_session_status (session_status session)
                     @ '' and cannot accept new operations'')
          else None)"

definition getTeam :: "string \<Rightarrow> store \<Rightarrow> Team option" where
  "getTeam teamId st = map_of (teams st) teamId"

definition getAssignmentSession :: "string \<Rightarrow> store \<Rightarrow> AssignmentSession option" where
  "getAssignmentSession sessionId st = map_of (sessions st) sessionId"

text \<open>
  \<open>getLatestSessionForTeam\<close>: the team's sessions in insertion order, sorted by
  creation date, latest first (the sort is stable), and the first of them.
\<close>

definition getLatestSessionForTeam :: "string \<Rightarrow> store \<Rightarrow> AssignmentSession option" where
  "getLatestSessionForTeam teamId st =
     (case sort_key (\<lambda>s. - int (as_createdAt s))
             (filter (\<lambda>s. as_teamId s = teamId) (map snd (sessions st))) of
        [] \<Rightarrow> None
      | s # _ \<Rightarrow> Some s)"

definition getTeamsForSession :: "string \<Rightarrow> store \<Rightarrow> Team list" where
  "getTeamsForSession sessionId st = filter (\<lambda>team. team_sessionId team = sessionId) (map snd (teams st))"

definition getSessionStats :: "string \<Rightarrow> store \<Rightarrow> nat \<times> nat \<times> nat \<times> nat" where
  "getSessionStats sessionId st =
     (let sessionTeams = getTeamsForSession sessionId st;
          completeTeams = length (filter isComplete sessionTeams);
          totalApplicants = foldl (\<lambda>sum team. sum + length (applicants team)) 0 sessionTeams;
          assignedTeams = length (filter (\<lambda>team.
              case getLatestSessionForTeam (team_id team) st of
                None \<Rightarrow> False
              | Some latestSession \<Rightarrow> assignment latestSession \<noteq> None) sessionTeams)
      in (length sessionTeams, completeTeams, totalApplicants, assignedTeams))"

text \<open>\<open>SessionManager.updateSessionStats\<close>; \<open>now\<close> is the clock reading.\<close>

definition updateSessionStats :: "nat \<Rightarrow> string \<Rightarrow> store \<Rightarrow> store" where
  "updateSessionStats now sessionId st =
     (case map_of (groups st) sessionId of
        None \<Rightarrow> st
      | Some session \<Rightarrow>
          (case getSessionStats sessionId st of
             (n1, n2, n3, n4) \<Rightarrow>
               st\<lparr>groups := map_set sessionId
                    (session\<lparr>stats := \<lparr>totalTeams = n1, completeTeams = n2, totalApplicants = n3,
                                         assignedTeams = n4, lastActivity = now\<rparr>\<rparr>)
                    (groups st)\<rparr>))"

text \<open>
  \<open>TeamManager.createAssignmentSession\<close>. \<open>uuid k\<close> is the \<open>k\<close>-th identifier that
  \<open>uuidv4\<close> hands out during the call (ten for the roles, then one for the session).
  \<open>customRoles\<close> is \<open>None\<close> when the request has none.
\<close>

definition custom_role :: "(nat \<Rightarrow> string) \<Rightarrow> nat \<Rightarrow> string \<Rightarrow> RoleDefinition" where
  "custom_role uuid index name =
     \<lparr>role_id = uuid index,
      role_name = (if trim name = [] then ''Role #'' @ show_nat (index + 1) else trim name),
      role_description = None\<rparr>"

definition default_role :: "(nat \<Rightarrow> string) \<Rightarrow> nat \<Rightarrow> string \<Rightarrow> RoleDefinition" where
  "default_role uuid index name = \<lparr>role_id = uuid index, role_name = name, role_description = None\<rparr>"

definition map_index :: "(nat \<Rightarrow> 'a \<Rightarrow> 'b) \<Rightarrow> 'a list \<Rightarrow> 'b list" where
  "map_index f xs = map (\<lambda>(i, x). f i x) (zip [0..<length xs] xs)"

definition new_session ::
  "(nat \<Rightarrow> string) \<Rightarrow> nat \<Rightarrow> string \<Rightarrow> phase \<Rightarrow> RoleDefinition list \<Rightarrow> store
   \<Rightarrow> (string + AssignmentSession) \<times> store" where
  "new_session uuid now teamId ph roles st =
     (let session = \<lparr>as_id = uuid (length roles), as_teamId = teamId, as_phase = ph,
                     as_roles = roles, scoreMatrix = None, assignment = None,
                     status = pending, as_createdAt = now\<rparr>
      in (Inr session, st\<lparr>sessions := map_set (as_id session) session (sessions st)\<rparr>))"

definition createAssignmentSession ::
  "(nat \<Rightarrow> string) \<Rightarrow> nat \<Rightarrow> string \<Rightarrow> phase \<Rightarrow> string list option \<Rightarrow> store
   \<Rightarrow> (string + AssignmentSession) \<times> store" where
  "createAssignmentSession uuid now teamId ph customRoles st =
     (case map_of (teams st) teamId of
        None \<Rightarrow> (Inl ''Team not found'', st)
      | Some team \<Rightarrow>
         (case validateActiveSession (team_sessionId team) st of
            Some err \<Rightarrow> (Inl (''Cannot create assignment: '' @ err), st)
          | None \<Rightarrow>
             if \<not> isComplete team
             then (Inl ''Team must have exactly 10 applicants before assignment'', st)
             else
               (case (if ph = part2 then customRoles else None) of
                  Some names \<Rightarrow>
                    if length names \<noteq> 10
                    then (Inl ''Must provide exactly 10 custom roles for part 2'', st)
                    else new_session uuid now teamId ph (map_index (custom_role uuid) names) st
                | None \<Rightarrow>
                    new_session uuid now teamId ph (map_index (default_role uuid) DEFAULT_ROLES) st)))"

definition updateSessionStatus :: "string \<Rightarrow> assignment_status \<Rightarrow> store \<Rightarrow> store" where
  "updateSessionStatus sessionId s st =
     (case map_of (sessions st) sessionId of
        None \<Rightarrow> st
      | Some session \<Rightarrow> st\<lparr>sessions := map_set sessionId (session\<lparr>status := s\<rparr>) (sessions st)\<rparr>)"

text \<open>
  A write to a field of a session object that is held in the map, as in
  \<open>session.assignment = ...\<close>.
\<close>

definition modify_session :: "string \<Rightarrow> (AssignmentSession \<Rightarrow> AssignmentSession) \<Rightarrow> store \<Rightarrow> store" where
  "modify_session sessionId f st =
     (case map_of (sessions st) sessionId of
        None \<Rightarrow> st
      | Some session \<Rightarrow> st\<lparr>sessions := map_set sessionId (f session) (sessions st)\<rparr>)"

text \<open>\<open>TeamManager.resetTeam\<close>.\<close>

definition resetTeam :: "nat \<Rightarrow> string \<Rightarrow> store \<Rightarrow> (string + unit) \<times> store" where
  "resetTeam now teamId st =
     (case map_of (teams st) teamId of
        None \<Rightarrow> (Inl ''Team not found'', st)
      | Some team \<Rightarrow>
         (case validateActiveSession (team_sessionId team) st of
            Some err \<Rightarrow> (Inl (''Cannot reset team: '' @ err), st)
          | None \<Rightarrow>
             (let st1 = st\<lparr>teams := map_set teamId (team\<lparr>applicants := [], isComplete := False\<rparr>) (teams st)\<rparr>;
                  teamSessions = filter (\<lambda>(sessionId, session). as_teamId session = teamId) (sessions st1);
                  st2 = foldl (\<lambda>s (sessionId, session). s\<lparr>sessions := map_delete sessionId (sessions s)\<rparr>)
                          st1 teamSessions
              in (Inr (), updateSessionStats now (team_sessionId team) st2))))"

section \<open>The single-team pipeline (pages/api/assignTeam.ts)\<close>

record AssignTeamRequest =
  req_teamId :: string
  req_phase :: phase
  req_customRoles :: "string list option"

record AssignData =
  data_sessionId :: string
  data_assignment :: TeamAssignment
  justificationsPending :: bool

record ApiResponse =
  res_status :: nat
  res_success :: bool
  res_data :: "AssignData option"
  res_error :: "string option"
  res_message :: "string option"

definition error_response :: "nat \<Rightarrow> string \<Rightarrow> ApiResponse" where
  "error_response code err =
     \<lparr>res_status = code, res_success = False, res_data = None, res_error = Some err, res_message = None\<rparr>"

text \<open>
  What a run takes from its environment: the identifiers \<open>uuidv4\<close> hands out, the clock
  readings, the replies of the scoring oracle, and the solver.
\<close>

record env =
  uuid :: "nat \<Rightarrow> string"
  created_at :: nat
  scoring_oracle :: "nat \<Rightarrow> reply"
  scoring_clock :: "nat \<Rightarrow> nat"
  solver :: munkres
  assigned_at :: nat

text \<open>The background task that a successful run launches and does not await.\<close>

record task =
  task_sessionId :: string
  task_team :: Team
  task_roles :: "RoleDefinition list"
  task_assignment :: TeamAssignment

text \<open>
  The handler up to its first \<open>await\<close>: the checks, the new session, and the status
  \<open>scoring\<close>. \<open>body\<close> is the result of validating the request body.
\<close>

definition handler_begin ::
  "string \<Rightarrow> string option \<Rightarrow> string + AssignTeamRequest \<Rightarrow> env \<Rightarrow> store
   \<Rightarrow> (ApiResponse + AssignmentSession \<times> Team) \<times> store" where
  "handler_begin verb apiKey body e st =
     (if verb \<noteq> ''POST'' then (Inl (error_response 405 ''Method Not Allowed''), st)
      else if apiKey = None \<or> apiKey = Some []
      then (Inl (error_response 500 ''OpenRouter API key not configured''), st)
      else
        (case body of
           Inl err \<Rightarrow> (Inl (error_response 400 err), st)
         | Inr req \<Rightarrow>
            (case getTeam (req_teamId req) st of
               None \<Rightarrow> (Inl (error_response 404 ''Team not found''), st)
             | Some team \<Rightarrow>
                if \<not> isComplete team
                then (Inl (error_response 400 ''Team must have exactly 10 applicants before assignment''), st)
                else
                  (case createAssignmentSession (uuid e) (created_at e) (req_teamId req)
                          (req_phase req) (req_customRoles req) st of
                     (Inl err, st1) \<Rightarrow> (Inl (error_response 400 err), st1)
                   | (Inr session, st1) \<Rightarrow>
                       (Inr (session, team), updateSessionStatus (as_id session) scoring st1)))))"

text \<open>The handler from the scoring result on.\<close>

definition handler_resume ::
  "AssignmentSession \<Rightarrow> Team \<Rightarrow> env \<Rightarrow> store \<Rightarrow> (ApiResponse \<times> task option) \<times> store" where
  "handler_resume session team e st =
     (case outcome (generateScoreMatrix team (as_roles session) (scoring_oracle e) (scoring_clock e)) of
        Inl err \<Rightarrow>
          ((error_response 500 (''Scoring failed: '' @ err), None),
           updateSessionStatus (as_id session) pending st)
      | Inr sm \<Rightarrow>
          (let st1 = modify_session (as_id session) (\<lambda>s. s\<lparr>scoreMatrix := Some sm\<rparr>) st;
               st2 = updateSessionStatus (as_id session) assigning st1
           in case assignRoles (solver e) (assigned_at e) team (as_roles session) sm of
                Inl err \<Rightarrow>
                  ((error_response 500 (''Assignment failed: '' @ err), None),
                   updateSessionStatus (as_id session) pending st2)
              | Inr a \<Rightarrow>
                  (let st3 = modify_session (as_id session) (\<lambda>s. s\<lparr>assignment := Some a\<rparr>) st2;
                       st4 = updateSessionStatus (as_id session) justifying st3
                   in ((\<lparr>res_status = 200, res_success = True,
                          res_data = Some \<lparr>data_sessionId = as_id session, data_assignment = a,
                                           justificationsPending = True\<rparr>,
                          res_error = None,
                          res_message = Some ''Team assigned successfully! AI justifications are being generated...''\<rparr>,
                        Some \<lparr>task_sessionId = as_id session, task_team = team,
                              task_roles = as_roles session, task_assignment = a\<rparr>),
                       st4))))"

definition handler ::
  "string \<Rightarrow> string option \<Rightarrow> string + AssignTeamRequest \<Rightarrow> env \<Rightarrow> store
   \<Rightarrow> (ApiResponse \<times> task option) \<times> store" where
  "handler verb apiKey body e st =
     (case handler_begin verb apiKey body e st of
        (Inl resp, st1) \<Rightarrow> ((resp, None), st1)
      | (Inr (session, team), st1) \<Rightarrow> handler_resume session team e st1)"

text \<open>
  \<open>generateJustificationsBackground\<close>, run on the store as it is when the justifier
  returns.
\<close>

definition generateJustificationsBackground :: "task \<Rightarrow> (nat \<Rightarrow> reply) \<Rightarrow> store \<Rightarrow> store" where
  "generateJustificationsBackground t orc st =
     (case outcome (generateJustifications (task_team t) (task_roles t) (task_assignment t) orc) of
        Inr updatedAssignment \<Rightarrow>
          (case getAssignmentSession (task_sessionId t) st of
             None \<Rightarrow> st
           | Some session \<Rightarrow>
               updateSessionStatus (task_sessionId t) complete
                 (modify_session (task_sessionId t) (\<lambda>s. s\<lparr>assignment := Some updatedAssignment\<rparr>) st))
      | Inl err \<Rightarrow> updateSessionStatus (task_sessionId t) complete st)"

section \<open>The background phase of a batch (pages/api/batchAssignTeams.ts)\<close>

text \<open>
  One entry of \<open>teamsWithAssignments\<close>, and what \<open>Justifier.generateJustificationsBatch\<close>
  hands back: it throws (\<open>Inl\<close>), or returns one result per team, each a failure or an
  updated assignment. The batch call itself is not modelled; the background function is
  modelled for whatever it returns.
\<close>

record batch_item =
  item_team :: Team
  item_roles :: "RoleDefinition list"
  item_assignment :: TeamAssignment
  item_sessionId :: string

type_synonym batch_results = "(string \<times> (string + TeamAssignment)) list"

definition found_update :: "batch_results \<Rightarrow> batch_item \<Rightarrow> TeamAssignment option" where
  "found_update results it =
     (case find (\<lambda>r. fst r = team_id (item_team it)) results of
        Some (teamId, Inr updatedAssignment) \<Rightarrow> Some updatedAssignment
      | _ \<Rightarrow> None)"

definition settle_item :: "batch_results \<Rightarrow> store \<Rightarrow> batch_item \<Rightarrow> store" where
  "settle_item results st it =
     (case getAssignmentSession (item_sessionId it) st of
        None \<Rightarrow> st
      | Some session \<Rightarrow>
          (case found_update results it of
             Some updatedAssignment \<Rightarrow>
               updateSessionStatus (item_sessionId it) complete
                 (modify_session (item_sessionId it) (\<lambda>s. s\<lparr>assignment := Some updatedAssignment\<rparr>) st)
           | None \<Rightarrow> updateSessionStatus (item_sessionId it) complete st))"

definition generateBatchJustificationsBackground ::
  "batch_item list \<Rightarrow> string + batch_results \<Rightarrow> store \<Rightarrow> store" where
  "generateBatchJustificationsBackground items justificationResult st =
     (case justificationResult of
        Inr results \<Rightarrow> foldl (settle_item results) st items
      | Inl err \<Rightarrow> foldl (\<lambda>s it. updateSessionStatus (item_sessionId it) complete s) st items)"

section \<open>Example inputs\<close>

text \<open>
  A complete team, ten roles and the identity-favouring matrix (\<open>100\<close> on the diagonal,
  \<open>0\<close> elsewhere). \<open>diag_solver\<close> is a binding of \<open>munkres\<close> that answers with the
  diagonal, as a solver does on this matrix; it stands for an import that works, in
  the runs below where matching succeeds, and is not the binding the repository has
  (that is \<open>imported_munkres\<close>). \<open>not_a_function\<close> is a message of the TypeError that
  the repository's binding throws.
\<close>

definition ex_applicant :: "nat \<Rightarrow> Applicant" where
  "ex_applicant k = \<lparr>applicant_id = ''applicant-'' @ show_nat k, applicant_name = ''Name '' @ show_nat k,
     occupation = ''Engineer'', skills = [''typing''], personalityTraits = [''calm''], submittedAt = k\<rparr>"

definition ex_team :: Team where
  "ex_team = \<lparr>team_id = ''team-1'', team_name = ''Team 1'', applicants = map ex_applicant [0..<10],
     team_createdAt = 0, isComplete = True, team_sessionId = ''group-1''\<rparr>"

definition ex_roles :: "RoleDefinition list" where
  "ex_roles = map (\<lambda>k. \<lparr>role_id = ''role-'' @ show_nat k, role_name = ''Role #'' @ show_nat (k + 1),
     role_description = None\<rparr>) [0..<10]"

definition identity_scores :: "jsnum list list" where
  "identity_scores = map (\<lambda>i. map (\<lambda>j. if i = j then Num 100 else Num 0) [0..<10]) [0..<10]"

definition ex_matrix :: ScoreMatrix where
  "ex_matrix = \<lparr>sm_teamId = ''team-1'', scores = identity_scores, sm_generatedAt = 5\<rparr>"

definition diagonal :: "(int \<times> int) list" where
  "diagonal = map (\<lambda>k. (int k, int k)) [0..<10]"

definition diag_solver :: munkres where
  "diag_solver m = Inr diagonal"

definition not_a_function :: string where
  "not_a_function = ''munkres is not a function''"

definition ex_assignment :: TeamAssignment where
  "ex_assignment =
     \<lparr>ta_teamId = ''team-1'',
      assignments = map (\<lambda>k. \<lparr>applicantId = ''applicant-'' @ show_nat k,
                                roleId = ''role-'' @ show_nat k,
                                score = Num 100, justification = None\<rparr>) [0..<10],
      totalScore = Num 1000, ta_generatedAt = 7, justificationsGenerated = False\<rparr>"

text \<open>
  Replies of the oracle: the identity-favouring matrix; a matrix with nine rows; a
  service that answers every request with status 503; one that answers every request
  with status 501; and one that answers 503 once and then with the identity-favouring
  matrix.
\<close>

definition identity_reply :: json where
  "identity_reply = JArr (map (\<lambda>i. JArr (map (\<lambda>j. JNum (if i = j then Num 100 else Num 0)) [0..<10])) [0..<10])"

definition nine_rows_reply :: json where
  "nine_rows_reply = JArr (map (\<lambda>i. JArr (map (\<lambda>j. JNum (Num 50)) [0..<10])) [0..<9])"

definition oracle_identity :: "nat \<Rightarrow> reply" where
  "oracle_identity k = Parsed identity_reply"

definition oracle_nine_rows :: "nat \<Rightarrow> reply" where
  "oracle_nine_rows k = Parsed nine_rows_reply"

definition oracle_unavailable :: "nat \<Rightarrow> reply" where
  "oracle_unavailable k = NotOk 503 ''Service Unavailable''"

definition oracle_not_implemented :: "nat \<Rightarrow> reply" where
  "oracle_not_implemented k = NotOk 501 ''Not Implemented''"

definition oracle_recovers :: "nat \<Rightarrow> reply" where
  "oracle_recovers k = (if k = 0 then NotOk 503 ''Service Unavailable'' else Parsed identity_reply)"

definition ex_clock :: "nat \<Rightarrow> nat" where
  "ex_clock k = 5"

text \<open>
  A reply of the justification oracle for the example assignment, with a text of its
  own for each applicant and white space around it; the assignment with these
  justifications filled in; an oracle that answers with no content; one whose every
  text has 501 characters; one that answers 503 once and then with the good reply; and
  replies to a request for a single justification.
\<close>

definition ex_items :: "json list" where
  "ex_items = map (\<lambda>k. JObj [(''applicantId'', JStr (''applicant-'' @ show_nat k)),
                             (''justification'', JStr ('' Fits role '' @ show_nat k @ ''. ''))]) [0..<10]"

definition ex_justifications :: json where
  "ex_justifications = JArr ex_items"

definition oracle_justifies :: "nat \<Rightarrow> reply" where
  "oracle_justifies k = Parsed ex_justifications"

definition ex_justified :: TeamAssignment where
  "ex_justified =
     \<lparr>ta_teamId = ''team-1'',
      assignments = map (\<lambda>k. \<lparr>applicantId = ''applicant-'' @ show_nat k,
                                roleId = ''role-'' @ show_nat k,
                                score = Num 100,
                                justification = Some (''Fits role '' @ show_nat k @ ''.'')\<rparr>) [0..<10],
      totalScore = Num 1000, ta_generatedAt = 7, justificationsGenerated = True\<rparr>"

definition oracle_silent :: "nat \<Rightarrow> reply" where
  "oracle_silent k = NoContent"

definition oracle_overlong :: "nat \<Rightarrow> reply" where
  "oracle_overlong k =
     Parsed (JArr (map (\<lambda>k. JObj [(''applicantId'', JStr (''applicant-'' @ show_nat k)),
                                  (''justification'', JStr (replicate 501 (CHR ''a'')))]) [0..<10]))"

definition oracle_justifies_later :: "nat \<Rightarrow> reply" where
  "oracle_justifies_later k = (if k = 0 then NotOk 503 ''Service Unavailable'' else Parsed ex_justifications)"

definition text_unavailable :: "nat \<Rightarrow> completion" where
  "text_unavailable k = TextNotOk 503 ''Service Unavailable''"

definition text_later :: "nat \<Rightarrow> completion" where
  "text_later k = (if k = 0 then TextNotOk 503 ''Service Unavailable''
                   else TextContent '' Calm and precise. '')"

text \<open>
  A store with one active session that owns the complete example team; a request to
  assign that team; the environment of a run; and the stores along a run: the new
  assignment session while scoring, after matching, and once complete.
\<close>

definition ex_group :: Session where
  "ex_group = \<lparr>session_id = ''group-1'', session_name = ''Workshop'', session_status = active,
     session_createdAt = 0,
     stats = \<lparr>totalTeams = 1, completeTeams = 1, totalApplicants = 10, assignedTeams = 0, lastActivity = 0\<rparr>\<rparr>"

definition ex_store :: store where
  "ex_store = \<lparr>teams = [(''team-1'', ex_team)], sessions = [], groups = [(''group-1'', ex_group)]\<rparr>"

definition ex_uuid :: "nat \<Rightarrow> string" where
  "ex_uuid k = ''role-'' @ show_nat k"

definition ex_request :: AssignTeamRequest where
  "ex_request = \<lparr>req_teamId = ''team-1'', req_phase = part1, req_customRoles = None\<rparr>"

definition ex_env :: env where
  "ex_env = \<lparr>uuid = ex_uuid, created_at = 3, scoring_oracle = oracle_identity, scoring_clock = ex_clock,
              solver = diag_solver, assigned_at = 7\<rparr>"

definition ex_env_nine_rows :: env where
  "ex_env_nine_rows = ex_env\<lparr>scoring_oracle := oracle_nine_rows\<rparr>"

definition ex_session :: AssignmentSession where
  "ex_session = \<lparr>as_id = ''role-10'', as_teamId = ''team-1'', as_phase = part1,
     as_roles = map_index (default_role ex_uuid) DEFAULT_ROLES,
     scoreMatrix = None, assignment = None, status = pending, as_createdAt = 3\<rparr>"

definition ex_store_scoring :: store where
  "ex_store_scoring = ex_store\<lparr>sessions := [(''role-10'', ex_session\<lparr>status := scoring\<rparr>)]\<rparr>"

definition ex_uuid2 :: "nat \<Rightarrow> string" where
  "ex_uuid2 k = ''second-'' @ show_nat k"

definition ex_task :: task where
  "ex_task = \<lparr>task_sessionId = ''role-10'', task_team = ex_team, task_roles = as_roles ex_session,
               task_assignment = ex_assignment\<rparr>"

definition ex_store_justifying :: store where
  "ex_store_justifying = ex_store\<lparr>sessions := [(''role-10'',
      ex_session\<lparr>scoreMatrix := Some ex_matrix, assignment := Some ex_assignment, status := justifying\<rparr>)]\<rparr>"

definition ex_store_complete :: store where
  "ex_store_complete = ex_store\<lparr>sessions := [(''role-10'',
      ex_session\<lparr>scoreMatrix := Some ex_matrix, assignment := Some ex_assignment, status := complete\<rparr>)]\<rparr>"

section \<open>Properties of the assigner\<close>

lemma lookup_Some: "lookup xs i = Some x \<longleftrightarrow> (0 \<le> i \<and> i < int (length xs) \<and> x = xs ! nat i)"
  by (auto simp: lookup_def)

lemma build_assignments_Inr:
  assumes "build_assignments team roles sm ps asgs tot = Inr (asgs', tot')"
    and "length (scores sm) = 10" and "list_all (\<lambda>row. length row = 10) (scores sm)"
  shows "asgs' = asgs @ map (pairing team roles sm) ps
         \<and> tot' = foldl js_add tot (map (cell sm) ps)
         \<and> list_all in_range ps"
  using assms
proof (induction ps arbitrary: asgs tot)
  case Nil
  then show ?case by simp
next
  case (Cons p ps)
  obtain i j where p: "p = (i, j)" by (cases p)
  from Cons.prems(1) have rng: "0 \<le> i" "i < 10" "0 \<le> j" "j < 10"
    by (auto simp: p split: if_splits)
  have row: "length (scores sm ! nat i) = 10"
    using Cons.prems(2,3) rng by (simp add: list_all_length)
  from Cons.prems(1) rng obtain applicant role where
    a: "lookup (applicants team) i = Some applicant" and r: "lookup roles j = Some role"
    by (auto simp: p split: option.splits)
  have s: "lookup (scores sm) i = Some (scores sm ! nat i)"
    using Cons.prems(2) rng by (simp add: lookup_def)
  have c: "lookup (scores sm ! nat i) j = Some (scores sm ! nat i ! nat j)"
    using row rng by (simp add: lookup_def)
  let ?a = "\<lparr>applicantId = applicant_id applicant, roleId = role_id role,
              score = scores sm ! nat i ! nat j, justification = None\<rparr>"
  have rec: "build_assignments team roles sm ps (asgs @ [?a]) (js_add tot (scores sm ! nat i ! nat j))
             = Inr (asgs', tot')"
    using Cons.prems(1) rng a r s c by (simp add: p Let_def)
  have pa: "pairing team roles sm p = ?a"
    using a r by (simp add: pairing_def p lookup_Some)
  from Cons.IH [OF rec Cons.prems(2,3)] pa rng show ?case
    by (simp add: p cell_def mcell_def in_range_def)
qed

lemma distinct_of_remdups_length: "length (remdups xs) = length xs \<Longrightarrow> distinct xs"
  by (metis length_remdups_eq remdups_id_iff_distinct)

lemma full_range:
  fixes ks :: "int list"
  assumes "distinct ks" "length ks = 10" "\<forall>k\<in>set ks. 0 \<le> k \<and> k < 10"
  shows "set ks = {0..<10}"
proof -
  have "card (set ks) = 10" using assms(1,2) by (simp add: distinct_card)
  moreover have "set ks \<subseteq> {0..<10}" using assms(3) by auto
  moreover have "card {0..<10::int} = 10" by simp
  ultimately show ?thesis by (metis card_subset_eq finite_atLeastLessThan_int)
qed


lemma count_list_distinct: "distinct xs \<Longrightarrow> x \<in> set xs \<Longrightarrow> count_list xs x = 1"
  by (metis count_mset distinct_count_atmost_1)

lemma ids_cover:
  fixes ks :: "int list"
  assumes d: "distinct (map (\<lambda>k. f (xs ! nat k)) ks)" and l: "length ks = 10"
    and r: "\<forall>k\<in>set ks. 0 \<le> k \<and> k < 10" and n: "length xs = 10"
  shows "set (map (\<lambda>k. f (xs ! nat k)) ks) = f ` set xs"
proof -
  have "distinct ks" using d by (simp add: distinct_map)
  then have full: "set ks = {0..<10}" using l r by (rule full_range)
  have "set xs = (\<lambda>k. xs ! nat k) ` {0..<10::int}"
  proof
    show "set xs \<subseteq> (\<lambda>k. xs ! nat k) ` {0..<10::int}"
    proof
      fix x assume "x \<in> set xs"
      then obtain i where i: "i < 10" "x = xs ! i" using n by (metis in_set_conv_nth)
      then have "int i \<in> {0..<10::int}" "x = xs ! nat (int i)" by simp_all
      then show "x \<in> (\<lambda>k. xs ! nat k) ` {0..<10::int}" by blast
    qed
    show "(\<lambda>k. xs ! nat k) ` {0..<10::int} \<subseteq> set xs"
      using n by auto
  qed
  then show ?thesis using full by (simp add: image_image)
qed

lemma assignRoles_Inr:
  assumes ok: "assignRoles munkres now team roles sm = Inr ta"
  shows "length (applicants team) = 10 \<and> length roles = 10
    \<and> (\<exists>pairs. munkres (costMatrix (scores sm)) = Inr pairs
          \<and> length pairs = 10
          \<and> list_all in_range pairs
          \<and> assignments ta = map (pairing team roles sm) pairs
          \<and> totalScore ta = js_sum (map (cell sm) pairs)
          \<and> length (remdups (map applicantId (assignments ta))) = 10
          \<and> length (remdups (map roleId (assignments ta))) = 10)"
proof -
  from ok have la: "length (applicants team) = 10" and lr: "length roles = 10"
    and ls: "length (scores sm) = 10" and lrow: "list_all (\<lambda>row. length row = 10) (scores sm)"
    by (auto simp: assignRoles_def split: if_splits)
  from ok la lr ls lrow obtain pairs where m: "munkres (costMatrix (scores sm)) = Inr pairs"
    by (auto simp: assignRoles_def split: sum.splits)
  from ok la lr ls lrow m have lp: "length pairs = 10"
    by (auto simp: assignRoles_def split: if_splits)
  from ok la lr ls lrow m lp obtain asgs tot where
    b: "build_assignments team roles sm pairs [] (Num 0) = Inr (asgs, tot)"
    by (auto simp: assignRoles_def split: sum.splits)
  from ok la lr ls lrow m lp b have
    da: "length (remdups (map applicantId asgs)) = 10" and
    dr: "length (remdups (map roleId asgs)) = 10" and
    ta: "ta = \<lparr>ta_teamId = team_id team, assignments = asgs, totalScore = tot,
               ta_generatedAt = now, justificationsGenerated = False\<rparr>"
    by (auto simp: assignRoles_def split: if_splits)
  from build_assignments_Inr [OF b ls lrow] have
    asgs: "asgs = map (pairing team roles sm) pairs" and
    tot: "tot = js_sum (map (cell sm) pairs)" and rng: "list_all in_range pairs"
    by (simp_all add: js_sum_def)
  show ?thesis
    using la lr m lp rng asgs tot da dr by (simp add: ta)
qed

text \<open>
  Claim C1. Whenever \<open>assignRoles\<close> succeeds, the result has exactly ten pairings, every
  applicant id of the team and every role id occurs in exactly one of them (so no two
  pairings share an applicant or a role), the pairings are those of the solver's index
  pairs, and the total score is the sum of the matrix cells at those pairs. This holds
  whatever the solver returns: the checks of \<open>assignRoles\<close> itself enforce it.
\<close>

theorem assignRoles_bijection:
  assumes ok: "assignRoles munkres now team roles sm = Inr ta"
  shows "length (assignments ta) = 10
    \<and> (\<forall>a\<in>set (applicants team). count_list (map applicantId (assignments ta)) (applicant_id a) = 1)
    \<and> (\<forall>r\<in>set roles. count_list (map roleId (assignments ta)) (role_id r) = 1)
    \<and> distinct (map applicantId (assignments ta))
    \<and> distinct (map roleId (assignments ta))
    \<and> set (map applicantId (assignments ta)) = applicant_id ` set (applicants team)
    \<and> set (map roleId (assignments ta)) = role_id ` set roles
    \<and> (\<exists>pairs. munkres (costMatrix (scores sm)) = Inr pairs
          \<and> list_all in_range pairs
          \<and> assignments ta = map (pairing team roles sm) pairs
          \<and> totalScore ta = js_sum (map (cell sm) pairs))"
proof -
  from assignRoles_Inr [OF ok] obtain pairs where
    la: "length (applicants team) = 10" and lr: "length roles = 10" and
    m: "munkres (costMatrix (scores sm)) = Inr pairs" and lp: "length pairs = 10" and
    rng: "list_all in_range pairs" and
    asgs: "assignments ta = map (pairing team roles sm) pairs" and
    tot: "totalScore ta = js_sum (map (cell sm) pairs)" and
    da: "length (remdups (map applicantId (assignments ta))) = 10" and
    dr: "length (remdups (map roleId (assignments ta))) = 10"
    by blast
  let ?asgs = "assignments ta"
  have len: "length ?asgs = 10" using asgs lp by simp
  have dista: "distinct (map applicantId ?asgs)"
    using da len by (intro distinct_of_remdups_length) simp
  have distr: "distinct (map roleId ?asgs)"
    using dr len by (intro distinct_of_remdups_length) simp
  have ida: "map applicantId ?asgs = map (\<lambda>k. applicant_id (applicants team ! nat k)) (map fst pairs)"
    by (simp add: asgs pairing_def comp_def)
  have idr: "map roleId ?asgs = map (\<lambda>k. role_id (roles ! nat k)) (map snd pairs)"
    by (simp add: asgs pairing_def comp_def)
  have ra: "\<forall>k\<in>set (map fst pairs). 0 \<le> k \<and> k < 10"
    using rng by (auto simp: list_all_iff in_range_def)
  have rr: "\<forall>k\<in>set (map snd pairs). 0 \<le> k \<and> k < 10"
    using rng by (auto simp: list_all_iff in_range_def)
  have seta: "set (map applicantId ?asgs) = applicant_id ` set (applicants team)"
    unfolding ida using dista [unfolded ida] _ ra la by (rule ids_cover) (simp add: lp)
  have setr: "set (map roleId ?asgs) = role_id ` set roles"
    unfolding idr using distr [unfolded idr] _ rr lr by (rule ids_cover) (simp add: lp)
  have ca: "\<forall>a\<in>set (applicants team). count_list (map applicantId ?asgs) (applicant_id a) = 1"
  proof
    fix a assume "a \<in> set (applicants team)"
    then have "applicant_id a \<in> set (map applicantId ?asgs)" unfolding seta by (rule imageI)
    with dista show "count_list (map applicantId ?asgs) (applicant_id a) = 1"
      by (rule count_list_distinct)
  qed
  have cr: "\<forall>r\<in>set roles. count_list (map roleId ?asgs) (role_id r) = 1"
  proof
    fix r assume "r \<in> set roles"
    then have "role_id r \<in> set (map roleId ?asgs)" unfolding setr by (rule imageI)
    with distr show "count_list (map roleId ?asgs) (role_id r) = 1"
      by (rule count_list_distinct)
  qed
  from len ca cr dista distr seta setr m rng asgs tot show ?thesis by blast
qed

lemma ex_run: "assignRoles diag_solver 7 ex_team ex_roles ex_matrix = Inr ex_assignment"
  by code_simp

theorem assignRoles_bijection_witness:
  "assignRoles diag_solver 7 ex_team ex_roles ex_matrix = Inr ex_assignment
   \<and> length (assignments ex_assignment) = 10
   \<and> distinct (map applicantId (assignments ex_assignment))
   \<and> distinct (map roleId (assignments ex_assignment))
   \<and> set (map applicantId (assignments ex_assignment)) = applicant_id ` set (applicants ex_team)
   \<and> totalScore ex_assignment = js_sum (map (cell ex_matrix) diagonal)"
proof -
  note t = assignRoles_bijection [OF ex_run]
  from t obtain pairs where p: "diag_solver (costMatrix (scores ex_matrix)) = Inr pairs"
    and s: "totalScore ex_assignment = js_sum (map (cell ex_matrix) pairs)"
    by blast
  from p have "pairs = diagonal" by (simp add: diag_solver_def)
  with s t ex_run show ?thesis by blast
qed

text \<open>
  Claim C2. The claim is about the pairing that the Hungarian algorithm finds. In the
  repository no solver runs: with the binding that line 1 imports, the call
  \<open>munkres(costMatrix)\<close> throws, and \<open>assignRoles\<close> fails on every team of ten
  applicants with ten roles and a 10x10 matrix, whatever the scores. The result is the
  error that the \<open>catch\<close> builds from the message of the TypeError; it holds no
  assignment, hence no pairing and no total score. On the identity-favouring matrix,
  where the pairing of applicant \<open>i\<close> with role \<open>i\<close> and a total of 1000 are due, the
  result is this error too.
\<close>

theorem assignRoles_import_throws:
  assumes "length (applicants team) = 10" and "length roles = 10"
    and "length (scores sm) = 10" and "list_all (\<lambda>row. length row = 10) (scores sm)"
  shows "assignRoles (imported_munkres msg) now team roles sm = Inl (''Assignment failed: '' @ msg)
       \<and> (\<forall>ta. assignRoles (imported_munkres msg) now team roles sm \<noteq> Inr ta)"
proof -
  have "imported_munkres msg (costMatrix (scores sm)) = Inl msg"
    by (simp add: imported_munkres_def)
  with assms have "assignRoles (imported_munkres msg) now team roles sm
                   = Inl (''Assignment failed: '' @ msg)"
    by (simp add: assignRoles_def)
  then show ?thesis by simp
qed

theorem assignRoles_import_throws_witness:
  "length (applicants ex_team) = 10 \<and> length ex_roles = 10
   \<and> scores ex_matrix = identity_scores
   \<and> length (scores ex_matrix) = 10
   \<and> assignRoles (imported_munkres not_a_function) 7 ex_team ex_roles ex_matrix
       = Inl ''Assignment failed: munkres is not a function''"
proof -
  have a: "length (applicants ex_team) = 10" by code_simp
  have r: "length ex_roles = 10" by code_simp
  have i: "scores ex_matrix = identity_scores" by (simp add: ex_matrix_def)
  have l: "length (scores ex_matrix) = 10" by code_simp
  have w: "list_all (\<lambda>row. length row = 10) (scores ex_matrix)" by code_simp
  from assignRoles_import_throws [OF a r l w, of not_a_function 7] a r i l
  show ?thesis by (simp add: not_a_function_def)
qed



section \<open>Properties of the scorer\<close>

lemma check_cells_accepts:
  "list_all accepted_cell cs \<Longrightarrow> check_cells i j cs = Inr (map json_num cs)"
proof (induction cs arbitrary: j)
  case Nil
  then show ?case by simp
next
  case (Cons c cs)
  from Cons.prems obtain s where c: "c = JNum s" and s: "\<not> js_lt s (Num 0)" "\<not> js_gt s (Num 100)"
    by (cases c) (auto simp: accepted_cell_def)
  from Cons.prems have "check_cells i (j + 1) cs = Inr (map json_num cs)"
    by (intro Cons.IH) simp
  with c s show ?case by simp
qed

lemma check_cells_rejects:
  "\<not> list_all accepted_cell cs \<Longrightarrow> \<exists>e. check_cells i j cs = Inl e"
proof (induction cs arbitrary: j)
  case Nil
  then show ?case by simp
next
  case (Cons c cs)
  show ?case
  proof (cases "accepted_cell c")
    case True
    then obtain s where c: "c = JNum s" and s: "\<not> js_lt s (Num 0)" "\<not> js_gt s (Num 100)"
      by (cases c) (auto simp: accepted_cell_def)
    from True Cons.prems have "\<not> list_all accepted_cell cs" by simp
    from Cons.IH [OF this, of "j + 1"] obtain e where "check_cells i (j + 1) cs = Inl e" by blast
    with c s show ?thesis by simp
  next
    case False
    then show ?thesis by (cases c) (auto simp: accepted_cell_def)
  qed
qed

lemma check_cells_Inr:
  "check_cells i j cs = Inr row \<longleftrightarrow> list_all accepted_cell cs \<and> row = map json_num cs"
proof (cases "list_all accepted_cell cs")
  case True
  then show ?thesis using check_cells_accepts [of cs i j] by auto
next
  case False
  then show ?thesis using check_cells_rejects [of cs i j] by auto
qed

lemma check_rows_accepts:
  "list_all accepted_row rs \<Longrightarrow>
   check_rows i rs = Inr (map (\<lambda>row. map json_num (json_items row)) rs)"
proof (induction rs arbitrary: i)
  case Nil
  then show ?case by simp
next
  case (Cons r rs)
  from Cons.prems obtain cells where r: "r = JArr cells" and l: "length cells = 10"
    and a: "list_all accepted_cell cells"
    by (cases r) (auto simp: accepted_row_def)
  from Cons.prems have "check_rows (i + 1) rs = Inr (map (\<lambda>row. map json_num (json_items row)) rs)"
    by (intro Cons.IH) simp
  with r l check_cells_accepts [OF a, of i 0] show ?case by simp
qed

lemma check_rows_rejects:
  "\<not> list_all accepted_row rs \<Longrightarrow> \<exists>e. check_rows i rs = Inl e"
proof (induction rs arbitrary: i)
  case Nil
  then show ?case by simp
next
  case (Cons r rs)
  show ?case
  proof (cases "accepted_row r")
    case True
    then obtain cells where r: "r = JArr cells" and l: "length cells = 10"
      and a: "list_all accepted_cell cells"
      by (cases r) (auto simp: accepted_row_def)
    from True Cons.prems have "\<not> list_all accepted_row rs" by simp
    from Cons.IH [OF this, of "i + 1"] obtain e where "check_rows (i + 1) rs = Inl e" by blast
    with r l check_cells_accepts [OF a, of i 0] show ?thesis by simp
  next
    case False
    show ?thesis
    proof (cases r)
      case (JArr cells)
      show ?thesis
      proof (cases "length cells = 10")
        case True
        with False JArr have "\<not> list_all accepted_cell cells" by (simp add: accepted_row_def)
        from check_cells_rejects [OF this, of i 0] obtain e where "check_cells i 0 cells = Inl e" by blast
        with JArr True show ?thesis by simp
      next
        case False
        with JArr show ?thesis by simp
      qed
    qed simp_all
  qed
qed

lemma check_rows_Inr:
  "check_rows i rs = Inr rows \<longleftrightarrow>
     list_all accepted_row rs \<and> rows = map (\<lambda>row. map json_num (json_items row)) rs"
proof (cases "list_all accepted_row rs")
  case True
  then show ?thesis using check_rows_accepts [of rs i] by auto
next
  case False
  then show ?thesis using check_rows_rejects [of rs i] by auto
qed

lemma check_matrix_Inr:
  "check_matrix v = Inr sc \<longleftrightarrow>
     (\<exists>rows. v = JArr rows \<and> length rows = 10 \<and> list_all accepted_row rows) \<and> sc = matrix_of v"
  by (cases v) (auto simp: check_matrix_def matrix_of_def check_rows_Inr)

lemma accepted_cell_finite:
  "from_JSON_parse c \<Longrightarrow> accepted_cell c \<longleftrightarrow> finite_in_range c"
proof (cases c)
  case (JNum s)
  assume "from_JSON_parse c"
  with JNum show ?thesis
    by (cases s) (auto simp: accepted_cell_def finite_in_range_def js_gt_def)
qed (simp_all add: accepted_cell_def finite_in_range_def)

lemma accepted_row_finite:
  assumes "from_JSON_parse r"
  shows "accepted_row r \<longleftrightarrow> (case r of JArr cells \<Rightarrow> length cells = 10 \<and> list_all finite_in_range cells | _ \<Rightarrow> False)"
proof (cases r)
  case (JArr cells)
  with assms have "\<forall>c\<in>set cells. from_JSON_parse c" by (simp add: list_all_iff)
  then have "list_all accepted_cell cells = list_all finite_in_range cells"
    by (auto simp: list_all_iff accepted_cell_finite)
  with JArr show ?thesis by (simp add: accepted_row_def)
qed (simp_all add: accepted_row_def)

lemma check_matrix_spec:
  assumes "from_JSON_parse v"
  shows "(\<exists>sc. check_matrix v = Inr sc) \<longleftrightarrow> spec_matrix v"
proof (cases v)
  case (JArr rows)
  with assms have "\<forall>r\<in>set rows. from_JSON_parse r" by (simp add: list_all_iff)
  then have "list_all accepted_row rows
             = list_all (\<lambda>row. case row of JArr cells \<Rightarrow> length cells = 10 \<and> list_all finite_in_range cells
                                     | _ \<Rightarrow> False) rows"
    by (auto simp: list_all_iff accepted_row_finite)
  with JArr show ?thesis by (simp add: check_matrix_Inr spec_matrix_def)
qed (simp_all add: check_matrix_def spec_matrix_def)

lemma validateScoreMatrix_spec: "validateScoreMatrix v \<longleftrightarrow> spec_matrix v"
proof -
  have c: "(case c of JNum s \<Rightarrow> js_ge s (Num 0) \<and> js_le s (Num 100) | _ \<Rightarrow> False) = finite_in_range c" for c
  proof (cases c)
    case (JNum s)
    then show ?thesis by (cases s) (simp_all add: finite_in_range_def js_ge_def)
  qed (simp_all add: finite_in_range_def)
  show ?thesis
    by (simp add: validateScoreMatrix_def spec_matrix_def c cong: json.case_cong)
qed

lemma score_attempt_Inr:
  "score_attempt team roles rep now = Returns (Inr sm) \<longleftrightarrow>
     length (applicants team) = 10 \<and> length roles = 10 \<and>
     (\<exists>v. rep = Parsed v \<and> (\<exists>sc. check_matrix v = Inr sc) \<and>
          sm = \<lparr>sm_teamId = team_id team, scores = matrix_of v, sm_generatedAt = now\<rparr>)"
proof (cases rep)
  case (Parsed v)
  show ?thesis
  proof (cases "check_matrix v")
    case (Inl e)
    with Parsed show ?thesis by (simp add: score_attempt_def)
  next
    case (Inr sc)
    then have "sc = matrix_of v" by (simp add: check_matrix_Inr)
    with Parsed Inr show ?thesis by (auto simp: score_attempt_def)
  qed
qed (simp_all add: score_attempt_def)

lemma retry_success_from_attempt:
  "outcome (generateScoreMatrixWithRetry team roles orc clock rc) = Inr sm \<Longrightarrow>
   \<exists>k. rc \<le> k \<and> k \<le> max rc MAX_RETRIES \<and>
       score_attempt team roles (orc k) (clock k) = Returns (Inr sm)"
proof (induction team roles orc clock rc rule: generateScoreMatrixWithRetry.induct)
  case (1 team roles orc clock rc)
  show ?case
  proof (cases "score_attempt team roles (orc rc) (clock rc)")
    case (Returns r)
    with "1.prems" have "r = Inr sm"
      by (simp add: generateScoreMatrixWithRetry.simps [of team roles orc clock rc])
    with Returns show ?thesis by (intro exI [of _ rc]) simp
  next
    case (Throws m)
    show ?thesis
    proof (cases "isRetryableError m \<and> rc < MAX_RETRIES")
      case True
      with Throws "1.prems"
      have "outcome (generateScoreMatrixWithRetry team roles orc clock (rc + 1)) = Inr sm"
        by (simp add: generateScoreMatrixWithRetry.simps [of team roles orc clock rc] Let_def)
      from "1.IH" [OF Throws True refl this] obtain k where
        "rc + 1 \<le> k" "k \<le> max (rc + 1) MAX_RETRIES"
        "score_attempt team roles (orc k) (clock k) = Returns (Inr sm)" by blast
      with True show ?thesis by (intro exI [of _ k]) auto
    next
      case False
      with Throws "1.prems" show ?thesis
        by (simp add: generateScoreMatrixWithRetry.simps [of team roles orc clock rc])
    qed
  qed
qed

lemma retry_returns:
  "score_attempt team roles (orc rc) (clock rc) = Returns r \<Longrightarrow>
   generateScoreMatrixWithRetry team roles orc clock rc = \<lparr>outcome = r, attempts = 1, delays = []\<rparr>"
  by (simp add: generateScoreMatrixWithRetry.simps [of team roles orc clock rc])

lemma retry_stops:
  "score_attempt team roles (orc rc) (clock rc) = Throws m \<Longrightarrow>
   \<not> isRetryableError m \<or> MAX_RETRIES \<le> rc \<Longrightarrow>
   generateScoreMatrixWithRetry team roles orc clock rc
   = \<lparr>outcome = Inl (''Scoring failed after '' @ show_nat rc @ '' retries: '' @ m),
      attempts = 1, delays = []\<rparr>"
  by (auto simp: generateScoreMatrixWithRetry.simps [of team roles orc clock rc])

lemma isRetryableError_words:
  "isRetryableError m = list_ex (str_includes (toLowerCase m)) retry_words"
  by (auto simp: isRetryableError_def Let_def retry_words_def)

declare isRetryableError_words [code]

lemma shape_error_terminal: "\<not> isRetryableError ''Score matrix must be 10x10''"
  unfolding isRetryableError_words by code_simp

lemma str_includes_Nil: "str_includes s []"
  by (induction s) simp_all

lemma str_includes_short: "length s < length sub \<Longrightarrow> \<not> str_includes s sub"
proof (induction s)
  case Nil
  then show ?case by auto
next
  case (Cons c cs)
  then have "\<not> prefix sub (c # cs)" by (auto dest: prefix_length_le)
  with Cons show ?case by simp
qed

lemma prefix_across_separator:
  assumes "c \<notin> set sub"
  shows "prefix sub (xs @ c # ys) \<longleftrightarrow> prefix sub xs"
proof
  assume "prefix sub (xs @ c # ys)"
  then have "prefix sub xs \<or> (\<exists>us. sub = xs @ us \<and> prefix us (c # ys))"
    by (simp add: prefix_append)
  then show "prefix sub xs"
  proof
    assume "prefix sub xs"
    then show ?thesis .
  next
    assume "\<exists>us. sub = xs @ us \<and> prefix us (c # ys)"
    then obtain us where us: "sub = xs @ us" "prefix us (c # ys)" by blast
    show ?thesis
    proof (cases us)
      case Nil
      with us(1) show ?thesis by simp
    next
      case (Cons u vs)
      with us(2) have "u = c" by simp
      with Cons us(1) assms show ?thesis by simp
    qed
  qed
next
  assume "prefix sub xs"
  then show "prefix sub (xs @ c # ys)" by (rule prefix_prefix)
qed

lemma str_includes_separator:
  assumes "c \<notin> set sub" "sub \<noteq> []"
  shows "str_includes (xs @ c # ys) sub \<longleftrightarrow> str_includes xs sub \<or> str_includes ys sub"
proof (induction xs)
  case Nil
  have "\<not> prefix sub (c # ys)"
    using assms by (cases sub) auto
  with assms(2) show ?case by simp
next
  case (Cons x xs)
  have "prefix sub (x # xs @ c # ys) \<longleftrightarrow> prefix sub (x # xs)"
    using prefix_across_separator [OF assms(1), of "x # xs" ys] by simp
  with Cons show ?case by auto
qed

lemma digits_lower:
  "\<forall>i\<in>set [0..<10]. toLowerCase (show_nat i) = show_nat i \<and> length (show_nat i) = 1"
  by code_simp

lemma retry_words_shape:
  "\<forall>w\<in>set retry_words. CHR ''['' \<notin> set w \<and> CHR '']'' \<notin> set w \<and> 2 \<le> length w"
  by code_simp

lemma score_error_segments:
  "\<forall>w\<in>set retry_words. \<not> str_includes ''invalid score at '' w
      \<and> \<not> str_includes '': must be number between 0-100'' w"
  by code_simp

lemma score_error_terminal:
  assumes "i < 10" "j < 10"
  shows "\<not> isRetryableError (score_error i j)"
proof -
  from assms digits_lower have
    di: "toLowerCase (show_nat i) = show_nat i" "length (show_nat i) = 1" and
    dj: "toLowerCase (show_nat j) = show_nat j" "length (show_nat j) = 1"
    by simp_all
  have l1: "toLowerCase ''Invalid score at ['' = ''invalid score at ''  @ ''[''" by code_simp
  have l2: "toLowerCase '']['' = '']['' " by code_simp
  have l3: "toLowerCase '']: must be number between 0-100'' = '']'' @ '': must be number between 0-100''"
    by code_simp
  have low: "toLowerCase (score_error i j)
    = ''invalid score at '' @ CHR ''['' # (show_nat i @ CHR '']'' # ([] @ CHR ''['' # (show_nat j
        @ CHR '']'' # '': must be number between 0-100'')))"
    unfolding score_error_def toLowerCase_def map_append
    unfolding toLowerCase_def [symmetric] l1 l2 l3 di dj by simp
  have "\<not> str_includes (toLowerCase (score_error i j)) w" if w: "w \<in> set retry_words" for w
  proof -
    from w retry_words_shape have s: "CHR ''['' \<notin> set w" "CHR '']'' \<notin> set w" "2 \<le> length w"
      by blast+
    then have ne: "w \<noteq> []" by auto
    from w score_error_segments have
      a: "\<not> str_includes ''invalid score at '' w" "\<not> str_includes '': must be number between 0-100'' w"
      by blast+
    have b: "\<not> str_includes (show_nat i) w" "\<not> str_includes (show_nat j) w" "\<not> str_includes [] w"
      using s(3) di(2) dj(2) by (auto intro!: str_includes_short)
    show ?thesis
      unfolding low
      by (simp only: str_includes_separator [OF s(1) ne] str_includes_separator [OF s(2) ne] a b
            simp_thms)
  qed
  then show ?thesis by (simp add: isRetryableError_words list_ex_iff)
qed

lemma row_error_terminal_cases: "\<forall>i\<in>set [0..<10]. \<not> isRetryableError (row_error i)"
  by code_simp

lemma row_error_terminal: "i < 10 \<Longrightarrow> \<not> isRetryableError (row_error i)"
  using row_error_terminal_cases by simp

lemma check_cells_error_terminal:
  "check_cells i j cs = Inl m \<Longrightarrow> i < 10 \<Longrightarrow> j + length cs \<le> 10 \<Longrightarrow> \<not> isRetryableError m"
proof (induction cs arbitrary: j)
  case Nil
  then show ?case by simp
next
  case (Cons c cs)
  from Cons.prems(3) have j: "j < 10" by simp
  show ?case
  proof (cases "m = score_error i j")
    case True
    with Cons.prems(2) j show ?thesis by (simp add: score_error_terminal)
  next
    case False
    with Cons.prems(1) have "check_cells i (j + 1) cs = Inl m"
      by (auto split: json.splits if_splits sum.splits)
    from Cons.IH [OF this Cons.prems(2)] Cons.prems(3) show ?thesis by simp
  qed
qed

lemma check_rows_error_terminal:
  "check_rows i rs = Inl m \<Longrightarrow> i + length rs \<le> 10 \<Longrightarrow> \<not> isRetryableError m"
proof (induction rs arbitrary: i)
  case Nil
  then show ?case by simp
next
  case (Cons r rs)
  from Cons.prems(2) have i: "i < 10" by simp
  show ?case
  proof (cases "m = row_error i")
    case True
    with i show ?thesis by (simp add: row_error_terminal)
  next
    case False
    with Cons.prems(1) obtain cells where r: "r = JArr cells" and l: "length cells = 10"
      by (cases r) (auto split: if_splits)
    show ?thesis
    proof (cases "check_cells i 0 cells")
      case (Inl e)
      with Cons.prems(1) r l have "e = m" by simp
      with Inl i l show ?thesis using check_cells_error_terminal [of i 0 cells m] by simp
    next
      case (Inr row)
      with Cons.prems(1) r l have "check_rows (i + 1) rs = Inl m"
        by (auto split: sum.splits)
      from Cons.IH [OF this] Cons.prems(2) show ?thesis by simp
    qed
  qed
qed

lemma check_matrix_error_terminal:
  assumes "check_matrix v = Inl m"
  shows "\<not> isRetryableError m"
proof (cases "m = ''Score matrix must be 10x10''")
  case True
  then show ?thesis by (simp add: shape_error_terminal)
next
  case False
  with assms obtain rows where "v = JArr rows" "length rows = 10" "check_rows 0 rows = Inl m"
    by (cases v) (auto simp: check_matrix_def split: if_splits)
  then show ?thesis using check_rows_error_terminal [of 0 rows m] by simp
qed

lemma malformed_reply_fails_at_once:
  assumes v: "orc rc = Parsed v" and p: "from_JSON_parse v" and n: "\<not> spec_matrix v"
  shows "\<exists>e. generateScoreMatrixWithRetry team roles orc clock rc
              = \<lparr>outcome = Inl e, attempts = 1, delays = []\<rparr>"
proof -
  from p n obtain m where m: "check_matrix v = Inl m"
    using check_matrix_spec [OF p] by (cases "check_matrix v") auto
  show ?thesis
  proof (cases "score_attempt team roles (orc rc) (clock rc)")
    case (Returns r)
    with v m obtain e where "r = Inl e"
      by (auto simp: score_attempt_def split: if_splits)
    with retry_returns [where orc = orc and rc = rc and clock = clock, OF Returns] show ?thesis by simp
  next
    case (Throws m')
    with v m have "m' = m" by (auto simp: score_attempt_def split: if_splits)
    with check_matrix_error_terminal [OF m] have "\<not> isRetryableError m' \<or> MAX_RETRIES \<le> rc" by simp
    from retry_stops [where orc = orc and rc = rc and clock = clock, OF Throws this]
    show ?thesis by simp
  qed
qed

text \<open>
  Claim C4. Replies are what \<open>JSON.parse\<close> can return (no \<open>NaN\<close>). A score matrix
  comes out of a scoring call only from a reply that parses to a 10x10 array of finite
  numbers in [0,100], and it is that array; when no reply has this shape the call
  returns an error. Attempt by attempt: a parsed reply is accepted exactly when it has
  this shape, and a reply that does not parse never yields a matrix. The exported
  \<open>validateScoreMatrix\<close> accepts exactly the same values. A parsed reply of another
  shape ends the call at once: one attempt, no retry, an error result.
\<close>

theorem scorer_accepts_only_well_formed:
  assumes parse: "\<forall>k. reply_from_JSON_parse (orc k)"
  shows "(\<forall>sm. outcome (generateScoreMatrix team roles orc clock) = Inr sm \<longrightarrow>
            (\<exists>k\<le>3. \<exists>v. orc k = Parsed v \<and> spec_matrix v \<and> scores sm = matrix_of v))
       \<and> ((\<forall>k\<le>3. \<forall>v. orc k = Parsed v \<longrightarrow> \<not> spec_matrix v) \<longrightarrow>
            (\<exists>e. outcome (generateScoreMatrix team roles orc clock) = Inl e))
       \<and> (\<forall>k v now. orc k = Parsed v \<longrightarrow>
            ((\<exists>sm. score_attempt team roles (orc k) now = Returns (Inr sm))
             \<longleftrightarrow> length (applicants team) = 10 \<and> length roles = 10 \<and> spec_matrix v))
       \<and> (\<forall>k now sm. (\<forall>v. orc k \<noteq> Parsed v) \<longrightarrow> score_attempt team roles (orc k) now \<noteq> Returns (Inr sm))
       \<and> (\<forall>v. validateScoreMatrix v \<longleftrightarrow> spec_matrix v)
       \<and> (\<forall>rc v. orc rc = Parsed v \<and> \<not> spec_matrix v \<longrightarrow>
            (\<exists>e. generateScoreMatrixWithRetry team roles orc clock rc
                  = \<lparr>outcome = Inl e, attempts = 1, delays = []\<rparr>))"
proof -
  have a: "\<exists>k\<le>3. \<exists>v. orc k = Parsed v \<and> spec_matrix v \<and> scores sm = matrix_of v"
    if "outcome (generateScoreMatrix team roles orc clock) = Inr sm" for sm
  proof -
    from that obtain k where k: "k \<le> 3"
      and s: "score_attempt team roles (orc k) (clock k) = Returns (Inr sm)"
      unfolding generateScoreMatrix_def
      using retry_success_from_attempt [of team roles orc clock 0 sm]
      by (auto simp: MAX_RETRIES_def)
    from s obtain v where v: "orc k = Parsed v" "\<exists>sc. check_matrix v = Inr sc"
      "sm = \<lparr>sm_teamId = team_id team, scores = matrix_of v, sm_generatedAt = clock k\<rparr>"
      unfolding score_attempt_Inr by blast
    from parse v(1) have "from_JSON_parse v" by (metis reply_from_JSON_parse.simps(1))
    with v(2) have "spec_matrix v" by (simp add: check_matrix_spec)
    with k v show ?thesis by auto
  qed
  have b: "\<exists>e. outcome (generateScoreMatrix team roles orc clock) = Inl e"
    if n: "\<forall>k\<le>3. \<forall>v. orc k = Parsed v \<longrightarrow> \<not> spec_matrix v"
  proof (cases "outcome (generateScoreMatrix team roles orc clock)")
    case (Inl e)
    then show ?thesis by blast
  next
    case (Inr sm)
    from a [OF this] n show ?thesis by blast
  qed
  have c: "(\<exists>sm. score_attempt team roles (orc k) now = Returns (Inr sm))
           \<longleftrightarrow> length (applicants team) = 10 \<and> length roles = 10 \<and> spec_matrix v"
    if v: "orc k = Parsed v" for k v now
  proof -
    from parse v have "from_JSON_parse v" by (metis reply_from_JSON_parse.simps(1))
    then have "(\<exists>sc. check_matrix v = Inr sc) \<longleftrightarrow> spec_matrix v" by (rule check_matrix_spec)
    then show ?thesis unfolding score_attempt_Inr v by auto
  qed
  have d: "score_attempt team roles (orc k) now \<noteq> Returns (Inr sm)"
    if "\<forall>v. orc k \<noteq> Parsed v" for k now sm
    using that unfolding score_attempt_Inr by blast
  have f: "\<exists>e. generateScoreMatrixWithRetry team roles orc clock rc
                = \<lparr>outcome = Inl e, attempts = 1, delays = []\<rparr>"
    if v: "orc rc = Parsed v" and n: "\<not> spec_matrix v" for rc v
  proof -
    from parse v have "from_JSON_parse v" by (metis reply_from_JSON_parse.simps(1))
    with v n show ?thesis by (intro malformed_reply_fails_at_once)
  qed
  from a b c d f validateScoreMatrix_spec show ?thesis by blast
qed

lemma identity_reply_run:
  "generateScoreMatrix ex_team ex_roles oracle_identity ex_clock
   = \<lparr>outcome = Inr ex_matrix, attempts = 1, delays = []\<rparr>"
  by code_simp

theorem scorer_accepts_only_well_formed_witness:
  "(\<forall>k. reply_from_JSON_parse (oracle_identity k))
   \<and> outcome (generateScoreMatrix ex_team ex_roles oracle_identity ex_clock) = Inr ex_matrix
   \<and> (\<exists>k\<le>3. \<exists>v. oracle_identity k = Parsed v \<and> spec_matrix v \<and> scores ex_matrix = matrix_of v)"
proof -
  have "from_JSON_parse identity_reply" by code_simp
  then have p: "\<forall>k. reply_from_JSON_parse (oracle_identity k)" by (simp add: oracle_identity_def)
  have o: "outcome (generateScoreMatrix ex_team ex_roles oracle_identity ex_clock) = Inr ex_matrix"
    by (simp add: identity_reply_run)
  from scorer_accepts_only_well_formed [OF p, of ex_team ex_roles ex_clock] o p
  show ?thesis by blast
qed

section \<open>Properties of the retry policy\<close>

lemma upt_small: "[0..<0] = []" "[0..<1] = [0]" "[0..<2] = [0, 1]" "[0..<3] = [0, 1, 2]"
  by (simp_all add: upt_rec)

lemma retries_made_facts:
  "retries_made att \<le> MAX_RETRIES"
  "\<forall>i<retries_made att. retryable_failure (att i)"
  "retries_made att < MAX_RETRIES \<Longrightarrow> \<not> retryable_failure (att (retries_made att))"
proof -
  let ?P = "\<lambda>k. retryable_failure (att k)"
  let ?xs = "[0..<MAX_RETRIES]"
  have n: "retries_made att = length (takeWhile ?P ?xs)" by (simp add: retries_made_def)
  have "length (takeWhile ?P ?xs) \<le> length ?xs" by (rule length_takeWhile_le)
  then show le: "retries_made att \<le> MAX_RETRIES" by (simp add: n)
  show "\<forall>i<retries_made att. retryable_failure (att i)"
  proof (intro allI impI)
    fix i assume i: "i < retries_made att"
    then have "takeWhile ?P ?xs ! i \<in> set (takeWhile ?P ?xs)" by (simp add: n)
    then have "?P (takeWhile ?P ?xs ! i)" by (rule set_takeWhileD [THEN conjunct2])
    moreover have "takeWhile ?P ?xs ! i = ?xs ! i" using i by (simp add: n takeWhile_nth)
    moreover have "?xs ! i = i" using i le by simp
    ultimately show "retryable_failure (att i)" by simp
  qed
  show "\<not> retryable_failure (att (retries_made att))" if "retries_made att < MAX_RETRIES"
  proof -
    from that have "length (takeWhile ?P ?xs) < length ?xs" by (simp add: n)
    then have "\<not> ?P (?xs ! length (takeWhile ?P ?xs))" by (rule nth_length_takeWhile)
    with that show ?thesis by (simp add: n)
  qed
qed

lemma closed_form:
  fixes F :: "nat \<Rightarrow> 'a run"
  assumes step: "\<And>rc. F rc =
     (case att rc of
        Returns r \<Rightarrow> \<lparr>outcome = r, attempts = 1, delays = []\<rparr>
      | Throws m \<Rightarrow>
          if isRetryableError m \<and> rc < MAX_RETRIES
          then (F (rc + 1))\<lparr>attempts := attempts (F (rc + 1)) + 1,
                             delays := RETRY_DELAY * 2 ^ rc # delays (F (rc + 1))\<rparr>
          else \<lparr>outcome = Inl (d rc m), attempts = 1, delays = []\<rparr>)"
  shows "F 0 = policy_run att d"
proof -
  let ?n = "retries_made att"
  let ?out = "case att ?n of Returns r \<Rightarrow> r | Throws m \<Rightarrow> Inl (d ?n m)"
  have stop: "F ?n = \<lparr>outcome = ?out, attempts = 1, delays = []\<rparr>"
  proof (cases "att ?n")
    case (Returns r)
    then show ?thesis by (subst step) simp
  next
    case (Throws m)
    have "\<not> (isRetryableError m \<and> ?n < MAX_RETRIES)"
      using retries_made_facts(3) [of att] Throws by (auto simp: retryable_failure_def)
    with Throws show ?thesis by (subst step) auto
  qed
  have go: "F k = (F (k + 1))\<lparr>attempts := attempts (F (k + 1)) + 1,
                               delays := RETRY_DELAY * 2 ^ k # delays (F (k + 1))\<rparr>"
    if "k < ?n" for k
  proof -
    from that retries_made_facts(2) [of att] have "retryable_failure (att k)" by simp
    then obtain m where m: "att k = Throws m" "isRetryableError m"
      by (cases "att k") (simp_all add: retryable_failure_def)
    from that retries_made_facts(1) [of att] have "k < MAX_RETRIES" by simp
    with m show ?thesis by (subst step) simp
  qed
  have from_k: "F k = \<lparr>outcome = ?out, attempts = ?n - k + 1,
                        delays = map (\<lambda>i. RETRY_DELAY * 2 ^ i) [k..<?n]\<rparr>"
    if "k \<le> ?n" for k
    using that
  proof (induction "?n - k" arbitrary: k)
    case 0
    then have "k = ?n" by simp
    then show ?case by (simp add: stop)
  next
    case (Suc j)
    then have lt: "k < ?n" and j: "j = ?n - (k + 1)" and le: "k + 1 \<le> ?n" by simp_all
    note ih = Suc.hyps(1) [OF j le]
    have u: "[k..<?n] = k # [k + 1..<?n]" using lt by (simp add: upt_conv_Cons)
    have a: "?n - (k + 1) + 1 + 1 = ?n - k + 1" using lt by simp
    show ?case
      by (subst go [OF lt]) (simp only: ih u a list.map run.simps)
  qed
  from from_k [of 0] show ?thesis by (simp add: policy_run_def Let_def)
qed

lemma scorer_policy:
  "generateScoreMatrix team roles orc clock
   = policy_run (\<lambda>k. score_attempt team roles (orc k) (clock k))
       (\<lambda>k m. ''Scoring failed after '' @ show_nat k @ '' retries: '' @ m)"
  unfolding generateScoreMatrix_def
  by (rule closed_form [where F = "generateScoreMatrixWithRetry team roles orc clock"])
     (subst generateScoreMatrixWithRetry.simps, simp add: Let_def split: tried.splits)

lemma justifier_policy:
  "generateJustifications team roles asg orc
   = policy_run (\<lambda>k. justify_attempt team roles asg (orc k))
       (\<lambda>k m. ''Justification generation failed after '' @ show_nat k @ '' retries: '' @ m)"
  unfolding generateJustifications_def
  by (rule closed_form [where F = "generateJustificationsWithRetry team roles asg orc"])
     (subst generateJustificationsWithRetry.simps, simp add: Let_def split: tried.splits)

lemma single_policy:
  "generateSingleJustification applicant role sc orc
   = policy_run (\<lambda>k. single_attempt (orc k))
       (\<lambda>k m. ''Single justification generation failed after '' @ show_nat k @ '' retries: '' @ m)"
  unfolding generateSingleJustification_def
  by (rule closed_form [where F = "generateSingleJustificationWithRetry applicant role sc orc"])
     (subst generateSingleJustificationWithRetry.simps, simp add: Let_def split: tried.splits)

lemma retries_made_eq:
  assumes "n \<le> 3" "\<forall>k<n. retryable_failure (att k)" "n = 3 \<or> \<not> retryable_failure (att n)"
  shows "retries_made att = n"
proof -
  from assms(1) consider "n = 0" | "n = 1" | "n = 2" | "n = 3" by linarith
  then show ?thesis
  proof cases
    case 1
    with assms(3) show ?thesis by (simp add: retries_made_def MAX_RETRIES_def upt_small)
  next
    case 2
    with assms(2) have "retryable_failure (att 0)" by simp
    with 2 assms(3) show ?thesis by (simp add: retries_made_def MAX_RETRIES_def upt_small)
  next
    case 3
    with assms(2) have "retryable_failure (att 0)" "retryable_failure (att 1)" by simp_all
    with 3 assms(3) show ?thesis by (simp add: retries_made_def MAX_RETRIES_def upt_small)
  next
    case 4
    with assms(2) have "retryable_failure (att 0)" "retryable_failure (att 1)" "retryable_failure (att 2)"
      by simp_all
    with 4 show ?thesis by (simp add: retries_made_def MAX_RETRIES_def upt_small)
  qed
qed

lemma retries_made_le: "retries_made att \<le> 3"
proof -
  have "retries_made att \<le> length [0..<MAX_RETRIES]"
    unfolding retries_made_def by (rule length_takeWhile_le)
  then show ?thesis by (simp add: MAX_RETRIES_def)
qed

lemma policy_run_eq:
  assumes "n \<le> 3" "\<forall>k<n. retryable_failure (att k)" "n = 3 \<or> \<not> retryable_failure (att n)"
  shows "policy_run att d
         = \<lparr>outcome = (case att n of Returns r \<Rightarrow> r | Throws m \<Rightarrow> Inl (d n m)),
            attempts = n + 1,
            delays = map (\<lambda>i. 1000 * 2 ^ i) [0..<n]\<rparr>"
  by (simp add: policy_run_def retries_made_eq [OF assms] RETRY_DELAY_def)

lemma str_includes_mid: "str_includes (xs @ w @ ys) w"
proof (induction xs)
  case Nil
  show ?case
  proof (cases "w @ ys")
    case Nil
    then show ?thesis by simp
  next
    case (Cons a l)
    have "prefix w (w @ ys)" by simp
    then show ?thesis by (simp add: Cons)
  qed
next
  case (Cons x xs)
  then show ?case by simp
qed

lemma toLowerCase_append: "toLowerCase (a @ b) = toLowerCase a @ toLowerCase b"
  by (simp add: toLowerCase_def)

lemma status_digits:
  "show_nat 429 = ''429''" "show_nat 500 = ''500''" "show_nat 502 = ''502''"
  "show_nat 503 = ''503''" "show_nat 504 = ''504''"
  by code_simp+

lemma status_retryable:
  assumes "code \<in> {429, 500, 502, 503, 504}"
  shows "isRetryableError (''OpenRouter API error: '' @ show_nat code @ '' - '' @ errorText)"
proof -
  have w: "show_nat code \<in> set retry_words" "toLowerCase (show_nat code) = show_nat code"
    using assms by (auto simp: status_digits retry_words_def toLowerCase_def lower_char_def)
  have "str_includes (toLowerCase (''OpenRouter API error: '' @ show_nat code @ '' - '' @ errorText))
          (show_nat code)"
    unfolding toLowerCase_append w(2) by (rule str_includes_mid)
  with w(1) show ?thesis
    unfolding isRetryableError_words list_ex_iff by blast
qed

text \<open>
  Claim C8 as stated counts every 5xx server error as retryable. The classifier looks
  for the four numbers 500, 502, 503 and 504 only: a reply with status 501 (and a body
  that holds none of the ten substrings) is a terminal failure, and the unit ends after
  one attempt.
\<close>

theorem status_501_counterexample:
  "score_attempt ex_team ex_roles (NotOk 501 ''Not Implemented'') 5
     = Throws ''OpenRouter API error: 501 - Not Implemented''
   \<and> isRetryableError ''OpenRouter API error: 501 - Not Implemented'' = False
   \<and> oracle_not_implemented 0 = NotOk 501 ''Not Implemented''
   \<and> generateScoreMatrix ex_team ex_roles oracle_not_implemented ex_clock
     = \<lparr>outcome = Inl ''Scoring failed after 0 retries: OpenRouter API error: 501 - Not Implemented'',
        attempts = 1, delays = []\<rparr>"
  by code_simp

text \<open>
  A second way in which the classes of the classifier are not those of the claim. The
  message of the justifier's check of a text's length, \<open>Justification must be a string
  under 500 characters\<close>, holds the substring \<open>500\<close>, so the classifier takes this
  validation error for a server error: a reply with a text of 501 characters is asked
  for again three times.
\<close>

lemma overlong_is_retried:
  "generateJustifications ex_team ex_roles ex_assignment oracle_overlong
   = \<lparr>outcome = Inl (''Justification generation failed after 3 retries: ''
                      @ ''Justification must be a string under 500 characters''),
      attempts = 4, delays = [1000, 2000, 4000]\<rparr>"
  by code_simp

text \<open>
  Claim C8, amended. A unit of oracle work is one call of \<open>generateScoreMatrix\<close>, of
  \<open>generateJustifications\<close> or of \<open>generateSingleJustification\<close>. Each of the three runs
  the retry policy in closed form: the unit makes attempt after attempt as long as the
  attempt fails with an error that the classifier accepts and fewer than three retries
  have been made; it sleeps \<open>1000 * 2^i\<close> ms before retry \<open>i\<close>; and its result is that of
  its last attempt. So, with \<open>n\<close> the number of retryable failures before the first
  attempt that is not one (at most 3): the unit makes exactly \<open>n + 1\<close> attempts; a
  terminal failure of the first attempt means one attempt and no delay; a retryable
  failure below the ceiling is followed by another attempt, whose success is the unit's
  success; and four retryable failures in a row end the unit as failed after delays of
  1000, 2000 and 4000 ms. The classifier is a substring test: a failure is retryable
  exactly when its lower-cased message holds one of the ten substrings of
  \<open>retry_words\<close>. A reply with status 429, 500, 502, 503 or 504 is therefore retryable
  whatever its body, and every validation or shape error of the scorer's reply check is
  terminal.
\<close>

theorem retry_by_substring_classifier:
  "generateScoreMatrix team roles orc clock
     = policy_run (\<lambda>k. score_attempt team roles (orc k) (clock k))
         (\<lambda>k m. ''Scoring failed after '' @ show_nat k @ '' retries: '' @ m)
   \<and> generateJustifications team roles asg orc2
     = policy_run (\<lambda>k. justify_attempt team roles asg (orc2 k))
         (\<lambda>k m. ''Justification generation failed after '' @ show_nat k @ '' retries: '' @ m)
   \<and> generateSingleJustification applicant role sc orc3
     = policy_run (\<lambda>k. single_attempt (orc3 k))
         (\<lambda>k m. ''Single justification generation failed after '' @ show_nat k @ '' retries: '' @ m)
   \<and> (\<forall>att d n. n \<le> 3 \<and> (\<forall>k<n. retryable_failure (att k)) \<and> (n = 3 \<or> \<not> retryable_failure (att n)) \<longrightarrow>
         policy_run att d
         = \<lparr>outcome = (case att n of Returns r \<Rightarrow> r | Throws m \<Rightarrow> Inl (d n m)),
            attempts = n + 1,
            delays = map (\<lambda>i. 1000 * 2 ^ i) [0..<n]\<rparr>)
   \<and> (\<forall>att d. \<exists>n\<le>3. (\<forall>k<n. retryable_failure (att k)) \<and> (n = 3 \<or> \<not> retryable_failure (att n))
         \<and> attempts (policy_run att d) = n + 1)
   \<and> (\<forall>t. retryable_failure t \<longleftrightarrow> (\<exists>m. t = Throws m \<and> isRetryableError m))
   \<and> (\<forall>m. isRetryableError m \<longleftrightarrow> (\<exists>w\<in>set retry_words. str_includes (toLowerCase m) w))
   \<and> (\<forall>code errorText. code \<in> {429, 500, 502, 503, 504} \<longrightarrow>
         isRetryableError (''OpenRouter API error: '' @ show_nat code @ '' - '' @ errorText))
   \<and> (\<forall>v m. check_matrix v = Inl m \<longrightarrow> \<not> isRetryableError m)"
proof -
  have p: "policy_run att d
         = \<lparr>outcome = (case att n of Returns r \<Rightarrow> r | Throws m \<Rightarrow> Inl (d n m)),
            attempts = n + 1,
            delays = map (\<lambda>i. 1000 * 2 ^ i) [0..<n]\<rparr>"
    if "n \<le> 3 \<and> (\<forall>k<n. retryable_failure (att k)) \<and> (n = 3 \<or> \<not> retryable_failure (att n))"
    for att :: "nat \<Rightarrow> (string + 'a) tried" and d n
    using that by (intro policy_run_eq) simp_all
  have q: "\<exists>n\<le>3. (\<forall>k<n. retryable_failure (att k)) \<and> (n = 3 \<or> \<not> retryable_failure (att n))
         \<and> attempts (policy_run att d) = n + 1"
    for att :: "nat \<Rightarrow> (string + 'b) tried" and d
  proof -
    let ?n = "retries_made att"
    have "?n \<le> 3" by (rule retries_made_le)
    moreover have "\<forall>k<?n. retryable_failure (att k)" by (rule retries_made_facts(2))
    moreover have "?n = 3 \<or> \<not> retryable_failure (att ?n)"
      using retries_made_facts(3) [of att] retries_made_le [of att] by (auto simp: MAX_RETRIES_def)
    moreover have "attempts (policy_run att d) = ?n + 1" by (simp add: policy_run_def Let_def)
    ultimately show ?thesis by blast
  qed
  have c: "retryable_failure t \<longleftrightarrow> (\<exists>m. t = Throws m \<and> isRetryableError m)" for t :: "'c tried"
    by (cases t) (simp_all add: retryable_failure_def)
  have w: "isRetryableError m \<longleftrightarrow> (\<exists>w\<in>set retry_words. str_includes (toLowerCase m) w)" for m
    by (simp add: isRetryableError_words list_ex_iff)
  have s: "code \<in> {429, 500, 502, 503, 504} \<longrightarrow>
         isRetryableError (''OpenRouter API error: '' @ show_nat code @ '' - '' @ errorText)"
    for code errorText
    using status_retryable by blast
  have v: "check_matrix v = Inl m \<longrightarrow> \<not> isRetryableError m" for v m
    using check_matrix_error_terminal by blast
  show ?thesis
    apply (intro conjI allI)
            apply (rule scorer_policy)
           apply (rule justifier_policy)
          apply (rule single_policy)
         apply (rule impI, erule p)
        apply (rule q)
       apply (rule c)
      apply (rule w)
     apply (rule s)
    apply (rule v)
    done
qed

lemma recovers_policy:
  "policy_run (\<lambda>k. score_attempt ex_team ex_roles (oracle_recovers k) (ex_clock k))
         (\<lambda>k m. ''Scoring failed after '' @ show_nat k @ '' retries: '' @ m)
   = \<lparr>outcome = Inr ex_matrix, attempts = 2, delays = [1000]\<rparr>"
  by code_simp

lemma justifies_later_policy:
  "policy_run (\<lambda>k. justify_attempt ex_team ex_roles ex_assignment (oracle_justifies_later k))
         (\<lambda>k m. ''Justification generation failed after '' @ show_nat k @ '' retries: '' @ m)
   = \<lparr>outcome = Inr ex_justified, attempts = 2, delays = [1000]\<rparr>"
  by code_simp

lemma text_later_policy:
  "policy_run (\<lambda>k. single_attempt (text_later k))
         (\<lambda>k m. ''Single justification generation failed after '' @ show_nat k @ '' retries: '' @ m)
   = \<lparr>outcome = Inr ''Calm and precise.'', attempts = 2, delays = [1000]\<rparr>"
  by code_simp

lemma nine_rows_policy:
  "policy_run (\<lambda>k. score_attempt ex_team ex_roles (oracle_nine_rows k) (ex_clock k))
         (\<lambda>k m. ''Scoring failed after '' @ show_nat k @ '' retries: '' @ m)
   = \<lparr>outcome = Inl ''Scoring failed after 0 retries: Score matrix must be 10x10'',
      attempts = 1, delays = []\<rparr>"
  by code_simp

lemma silent_policy:
  "policy_run (\<lambda>k. justify_attempt ex_team ex_roles ex_assignment (oracle_silent k))
         (\<lambda>k m. ''Justification generation failed after '' @ show_nat k @ '' retries: '' @ m)
   = \<lparr>outcome = Inl ''Justification generation failed after 0 retries: No response content from LLM'',
      attempts = 1, delays = []\<rparr>"
  by code_simp

lemma text_unavailable_policy:
  "policy_run (\<lambda>k. single_attempt (text_unavailable k))
         (\<lambda>k m. ''Single justification generation failed after '' @ show_nat k @ '' retries: '' @ m)
   = \<lparr>outcome = Inl (''Single justification generation failed after 3 retries: ''
                      @ ''OpenRouter API error: 503 - Service Unavailable''),
      attempts = 4, delays = [1000, 2000, 4000]\<rparr>"
  by code_simp

theorem retry_by_substring_classifier_witness:
  "generateScoreMatrix ex_team ex_roles oracle_recovers ex_clock
     = \<lparr>outcome = Inr ex_matrix, attempts = 2, delays = [1000]\<rparr>
   \<and> generateJustifications ex_team ex_roles ex_assignment oracle_justifies_later
     = \<lparr>outcome = Inr ex_justified, attempts = 2, delays = [1000]\<rparr>
   \<and> generateSingleJustification (ex_applicant 0) (hd ex_roles) (Num 100) text_later
     = \<lparr>outcome = Inr ''Calm and precise.'', attempts = 2, delays = [1000]\<rparr>
   \<and> generateScoreMatrix ex_team ex_roles oracle_nine_rows ex_clock
     = \<lparr>outcome = Inl ''Scoring failed after 0 retries: Score matrix must be 10x10'',
        attempts = 1, delays = []\<rparr>
   \<and> generateJustifications ex_team ex_roles ex_assignment oracle_silent
     = \<lparr>outcome = Inl ''Justification generation failed after 0 retries: No response content from LLM'',
        attempts = 1, delays = []\<rparr>
   \<and> generateSingleJustification (ex_applicant 0) (hd ex_roles) (Num 100) text_unavailable
     = \<lparr>outcome = Inl (''Single justification generation failed after 3 retries: ''
                        @ ''OpenRouter API error: 503 - Service Unavailable''),
        attempts = 4, delays = [1000, 2000, 4000]\<rparr>"
proof -
  note a = retry_by_substring_classifier [where team = ex_team and roles = ex_roles
      and orc = oracle_recovers and clock = ex_clock and asg = ex_assignment
      and ?orc2.0 = oracle_justifies_later and applicant = "ex_applicant 0" and role = "hd ex_roles"
      and sc = "Num 100" and ?orc3.0 = text_later]
  note b = retry_by_substring_classifier [where team = ex_team and roles = ex_roles
      and orc = oracle_nine_rows and clock = ex_clock and asg = ex_assignment
      and ?orc2.0 = oracle_silent and applicant = "ex_applicant 0" and role = "hd ex_roles"
      and sc = "Num 100" and ?orc3.0 = text_unavailable]
  from a [unfolded recovers_policy justifies_later_policy text_later_policy] have a': "generateScoreMatrix ex_team ex_roles oracle_recovers ex_clock
     = \<lparr>outcome = Inr ex_matrix, attempts = 2, delays = [1000]\<rparr>
   \<and> generateJustifications ex_team ex_roles ex_assignment oracle_justifies_later
     = \<lparr>outcome = Inr ex_justified, attempts = 2, delays = [1000]\<rparr>
   \<and> generateSingleJustification (ex_applicant 0) (hd ex_roles) (Num 100) text_later
     = \<lparr>outcome = Inr ''Calm and precise.'', attempts = 2, delays = [1000]\<rparr>"
    by (elim conjE) (intro conjI, assumption+)
  from b [unfolded nine_rows_policy silent_policy text_unavailable_policy] have b': "generateScoreMatrix ex_team ex_roles oracle_nine_rows ex_clock
     = \<lparr>outcome = Inl ''Scoring failed after 0 retries: Score matrix must be 10x10'',
        attempts = 1, delays = []\<rparr>
   \<and> generateJustifications ex_team ex_roles ex_assignment oracle_silent
     = \<lparr>outcome = Inl ''Justification generation failed after 0 retries: No response content from LLM'',
        attempts = 1, delays = []\<rparr>
   \<and> generateSingleJustification (ex_applicant 0) (hd ex_roles) (Num 100) text_unavailable
     = \<lparr>outcome = Inl (''Single justification generation failed after 3 retries: ''
                        @ ''OpenRouter API error: 503 - Service Unavailable''),
        attempts = 4, delays = [1000, 2000, 4000]\<rparr>"
    by (elim conjE) (intro conjI, assumption+)
  from a' b' show ?thesis by (simp only: simp_thms)
qed

section \<open>Properties of the justifier\<close>

lemma length_trim: "length (trim s) \<le> length s"
proof -
  have "length (trim s) \<le> length (dropWhile is_space s)"
    unfolding trim_def by (metis length_dropWhile_le length_rev)
  also have "\<dots> \<le> length s" by (rule length_dropWhile_le)
  finally show ?thesis .
qed

lemma build_map_Inr:
  assumes "build_map items m = Inr jm"
  shows "list_all justification_entry items
       \<and> (\<forall>aid j. jm (JStr aid) = Some j \<longrightarrow>
            m (JStr aid) = Some j
            \<or> (\<exists>e\<in>set items. \<exists>t. get_prop e ''applicantId'' = Some (JStr aid)
                  \<and> get_prop e ''justification'' = Some (JStr t) \<and> j = trim t \<and> length t \<le> 500))"
  using assms
proof (induction items arbitrary: m)
  case Nil
  then show ?case by simp
next
  case (Cons e es)
  from Cons.prems obtain a s where
    a: "get_prop e ''applicantId'' = Some a" "truthy a" and
    t: "get_prop e ''justification'' = Some (JStr s)" "s \<noteq> []" "length s \<le> 500" and
    r: "build_map es (m(a \<mapsto> trim s)) = Inr jm"
    by (auto split: if_splits option.splits json.splits)
  from a(1) obtain kvs where e: "e = JObj kvs" by (cases e) auto
  have ent: "justification_entry e"
    unfolding justification_entry_def using e a t by blast
  note ih = Cons.IH [OF r]
  have "m (JStr aid) = Some j
        \<or> (\<exists>x\<in>set (e # es). \<exists>t. get_prop x ''applicantId'' = Some (JStr aid)
              \<and> get_prop x ''justification'' = Some (JStr t) \<and> j = trim t \<and> length t \<le> 500)"
    if j: "jm (JStr aid) = Some j" for aid j
  proof -
    from ih j consider "(m(a \<mapsto> trim s)) (JStr aid) = Some j"
      | "\<exists>x\<in>set es. \<exists>t. get_prop x ''applicantId'' = Some (JStr aid)
              \<and> get_prop x ''justification'' = Some (JStr t) \<and> j = trim t \<and> length t \<le> 500"
      by blast
    then show ?thesis
    proof cases
      case 1
      show ?thesis
      proof (cases "a = JStr aid")
        case True
        with 1 have "j = trim s" by simp
        with True a t show ?thesis by auto
      next
        case False
        with 1 show ?thesis by simp
      qed
    next
      case 2
      then show ?thesis by auto
    qed
  qed
  with ent ih show ?case by simp
qed

lemma update_assignments_Inr:
  assumes "update_assignments jm ps = Inr us"
  shows "us = map (\<lambda>p. p\<lparr>justification := jm (JStr (applicantId p))\<rparr>) ps
       \<and> (\<forall>p\<in>set ps. \<exists>j. jm (JStr (applicantId p)) = Some j \<and> j \<noteq> [])"
  using assms
proof (induction ps arbitrary: us)
  case Nil
  then show ?case by simp
next
  case (Cons p ps)
  from Cons.prems obtain j us' where j: "jm (JStr (applicantId p)) = Some j" "j \<noteq> []"
    and r: "update_assignments jm ps = Inr us'" and u: "us = p\<lparr>justification := Some j\<rparr> # us'"
    by (auto split: option.splits if_splits sum.splits)
  from Cons.IH [OF r] j u show ?case by simp
qed

lemma justify_attempt_Inr:
  assumes "justify_attempt team roles asg rep = Returns (Inr ua)"
  shows "length (assignments asg) = 10
       \<and> (\<exists>v. rep = Parsed v \<and> spec_justifications asg v)
       \<and> (\<exists>us. ua = asg\<lparr>assignments := us, justificationsGenerated := True\<rparr>
             \<and> map (\<lambda>p. (applicantId p, roleId p, score p)) us
                 = map (\<lambda>p. (applicantId p, roleId p, score p)) (assignments asg)
             \<and> (\<forall>p\<in>set us. \<exists>t. justification p = Some t \<and> t \<noteq> [] \<and> length t \<le> 500))"
proof -
  from assms have len: "length (assignments asg) = 10"
    by (auto simp: justify_attempt_def split: if_splits)
  from assms len obtain items where rep: "rep = Parsed (JArr items)" and li: "length items = 10"
    by (cases rep) (auto simp: justify_attempt_def split: if_splits json.splits)
  from assms len rep li obtain jm us where
    bm: "build_map items Map.empty = Inr jm" and
    up: "update_assignments jm (assignments asg) = Inr us" and
    ua: "ua = asg\<lparr>assignments := us, justificationsGenerated := True\<rparr>"
    by (auto simp: justify_attempt_def split: if_splits sum.splits)
  note b = build_map_Inr [OF bm]
  note u = update_assignments_Inr [OF up]
  have rec: "receives items (applicantId p) \<and>
             (\<exists>t. jm (JStr (applicantId p)) = Some t \<and> t \<noteq> [] \<and> length t \<le> 500)"
    if "p \<in> set (assignments asg)" for p
  proof -
    from u that obtain j where j: "jm (JStr (applicantId p)) = Some j" "j \<noteq> []" by blast
    with b obtain e t where "e \<in> set items" "get_prop e ''applicantId'' = Some (JStr (applicantId p))"
      "get_prop e ''justification'' = Some (JStr t)" "j = trim t" "length t \<le> 500"
      by fastforce
    moreover from this have "length j \<le> 500" using length_trim [of t] by simp
    ultimately show ?thesis using j unfolding receives_def by blast
  qed
  have spec: "spec_justifications asg (JArr items)"
    unfolding spec_justifications_def using li b rec by blast
  have same: "map (\<lambda>p. (applicantId p, roleId p, score p)) us
              = map (\<lambda>p. (applicantId p, roleId p, score p)) (assignments asg)"
    using u by (simp add: comp_def)
  have filled: "\<forall>p\<in>set us. \<exists>t. justification p = Some t \<and> t \<noteq> [] \<and> length t \<le> 500"
  proof
    fix q assume "q \<in> set us"
    with u obtain p where p: "p \<in> set (assignments asg)"
      "q = p\<lparr>justification := jm (JStr (applicantId p))\<rparr>" by auto
    with rec [OF p(1)] show "\<exists>t. justification q = Some t \<and> t \<noteq> [] \<and> length t \<le> 500" by auto
  qed
  from len rep spec ua same filled show ?thesis by blast
qed

lemma find_snoc:
  "find P (xs @ [x]) = (case find P xs of Some y \<Rightarrow> Some y | None \<Rightarrow> if P x then Some x else None)"
  by (induction xs) auto

lemma find_in_set: "find P xs = Some x \<Longrightarrow> x \<in> set xs \<and> P x"
  by (induction xs) (auto split: if_splits)

lemma build_map_given:
  assumes "build_map items m = Inr jm"
  shows "jm (JStr aid) = (case given_text items aid of Some t \<Rightarrow> Some t | None \<Rightarrow> m (JStr aid))"
  using assms
proof (induction items arbitrary: m)
  case Nil
  then show ?case by (simp add: given_text_def)
next
  case (Cons e es)
  let ?P = "\<lambda>e. get_prop e ''applicantId'' = Some (JStr aid)"
  from Cons.prems obtain a s where
    a: "get_prop e ''applicantId'' = Some a" and
    t: "get_prop e ''justification'' = Some (JStr s)" and
    r: "build_map es (m(a \<mapsto> trim s)) = Inr jm"
    by (auto split: if_splits option.splits json.splits)
  note ih = Cons.IH [OF r]
  from build_map_Inr [OF r] have ent: "list_all justification_entry es" by simp
  show ?case
  proof (cases "find ?P (rev es)")
    case None
    then have g: "given_text es aid = None" by (simp add: given_text_def)
    have g': "given_text (e # es) aid = (if a = JStr aid then Some (trim s) else None)"
      using None a t by (simp add: given_text_def find_snoc)
    from ih g g' show ?thesis by simp
  next
    case (Some x)
    from find_in_set [OF Some] have "x \<in> set es" by simp
    with ent have "justification_entry x" by (simp add: list_all_iff)
    then obtain u where u: "get_prop x ''justification'' = Some (JStr u)"
      unfolding justification_entry_def by blast
    have g: "given_text es aid = Some (trim u)" using Some u by (simp add: given_text_def)
    have g': "given_text (e # es) aid = Some (trim u)"
      using Some u by (simp add: given_text_def find_snoc)
    from ih g g' show ?thesis by simp
  qed
qed

lemma justify_attempt_exact:
  assumes "justify_attempt team roles asg rep = Returns (Inr ua)"
  shows "\<exists>items. rep = Parsed (JArr items)
           \<and> ua = asg\<lparr>assignments := map (\<lambda>p. p\<lparr>justification := given_text items (applicantId p)\<rparr>)
                                        (assignments asg),
                      justificationsGenerated := True\<rparr>"
proof -
  from assms have len: "length (assignments asg) = 10"
    by (auto simp: justify_attempt_def split: if_splits)
  from assms len obtain items where rep: "rep = Parsed (JArr items)" and li: "length items = 10"
    by (cases rep) (auto simp: justify_attempt_def split: if_splits json.splits)
  from assms len rep li obtain jm us where
    bm: "build_map items Map.empty = Inr jm" and
    up: "update_assignments jm (assignments asg) = Inr us" and
    ua: "ua = asg\<lparr>assignments := us, justificationsGenerated := True\<rparr>"
    by (auto simp: justify_attempt_def split: if_splits sum.splits)
  have "jm (JStr aid) = given_text items aid" for aid
    using build_map_given [OF bm, of aid] by (cases "given_text items aid") simp_all
  with update_assignments_Inr [OF up]
  have "us = map (\<lambda>p. p\<lparr>justification := given_text items (applicantId p)\<rparr>) (assignments asg)"
    by simp
  with rep ua show ?thesis by blast
qed

lemma justifier_last_attempt:
  assumes "outcome (generateJustifications team roles asg orc) = Inr ua"
  shows "\<exists>k\<le>3. attempts (generateJustifications team roles asg orc) = k + 1
              \<and> justify_attempt team roles asg (orc k) = Returns (Inr ua)"
proof -
  let ?att = "\<lambda>k. justify_attempt team roles asg (orc k)"
  let ?k = "retries_made ?att"
  from assms have "?att ?k = Returns (Inr ua)"
    unfolding justifier_policy by (cases "?att ?k") (simp_all add: policy_run_def Let_def)
  moreover have "attempts (generateJustifications team roles asg orc) = ?k + 1"
    unfolding justifier_policy by (simp add: policy_run_def Let_def)
  moreover have "?k \<le> 3" by (rule retries_made_le)
  ultimately show ?thesis by blast
qed

text \<open>
  Claim C7. \<open>generateJustifications\<close> succeeds only through the reply of its last
  attempt (of at most four), and only when that reply parses to an array of exactly
  ten objects, each with an applicant id and a non-empty justification string of at
  most 500 characters, in which every applicant id of the assignment receives a
  justification that is not empty. The assignment returned is then the given one with
  \<open>justificationsGenerated\<close> set and with, on every pairing, the text that this reply
  gives the pairing's applicant: the trimmed justification of the last entry that
  carries the applicant's id, which is not empty and has at most 500 characters.
  Applicants, roles, scores, total and timestamp are unchanged. When no reply is of
  that kind the call fails, and a failure carries no assignment at all.
\<close>

theorem justifications_all_or_nothing:
  "(\<forall>ua. outcome (generateJustifications team roles asg orc) = Inr ua \<longrightarrow>
      (\<exists>k\<le>3. \<exists>items.
          attempts (generateJustifications team roles asg orc) = k + 1
          \<and> orc k = Parsed (JArr items)
          \<and> spec_justifications asg (JArr items)
          \<and> ua = asg\<lparr>assignments := map (\<lambda>p. p\<lparr>justification := given_text items (applicantId p)\<rparr>)
                                       (assignments asg),
                     justificationsGenerated := True\<rparr>
          \<and> (\<forall>p\<in>set (assignments asg).
                \<exists>t. given_text items (applicantId p) = Some t \<and> t \<noteq> [] \<and> length t \<le> 500))
      \<and> length (assignments asg) = 10
      \<and> justificationsGenerated ua
      \<and> length (assignments ua) = 10
      \<and> (\<forall>p\<in>set (assignments ua). \<exists>t. justification p = Some t \<and> t \<noteq> [] \<and> length t \<le> 500)
      \<and> map (\<lambda>p. (applicantId p, roleId p, score p)) (assignments ua)
          = map (\<lambda>p. (applicantId p, roleId p, score p)) (assignments asg)
      \<and> ta_teamId ua = ta_teamId asg \<and> totalScore ua = totalScore asg
      \<and> ta_generatedAt ua = ta_generatedAt asg)
   \<and> ((\<forall>k\<le>3. \<forall>v. orc k = Parsed v \<longrightarrow> \<not> spec_justifications asg v) \<longrightarrow>
        (\<exists>e. outcome (generateJustifications team roles asg orc) = Inl e))"
proof -
  have a: "(\<exists>k\<le>3. \<exists>items.
          attempts (generateJustifications team roles asg orc) = k + 1
          \<and> orc k = Parsed (JArr items)
          \<and> spec_justifications asg (JArr items)
          \<and> ua = asg\<lparr>assignments := map (\<lambda>p. p\<lparr>justification := given_text items (applicantId p)\<rparr>)
                                       (assignments asg),
                     justificationsGenerated := True\<rparr>
          \<and> (\<forall>p\<in>set (assignments asg).
                \<exists>t. given_text items (applicantId p) = Some t \<and> t \<noteq> [] \<and> length t \<le> 500))
      \<and> length (assignments asg) = 10
      \<and> justificationsGenerated ua
      \<and> length (assignments ua) = 10
      \<and> (\<forall>p\<in>set (assignments ua). \<exists>t. justification p = Some t \<and> t \<noteq> [] \<and> length t \<le> 500)
      \<and> map (\<lambda>p. (applicantId p, roleId p, score p)) (assignments ua)
          = map (\<lambda>p. (applicantId p, roleId p, score p)) (assignments asg)
      \<and> ta_teamId ua = ta_teamId asg \<and> totalScore ua = totalScore asg
      \<and> ta_generatedAt ua = ta_generatedAt asg"
    if "outcome (generateJustifications team roles asg orc) = Inr ua" for ua
  proof -
    from justifier_last_attempt [OF that] obtain k where k: "k \<le> 3"
      and n: "attempts (generateJustifications team roles asg orc) = k + 1"
      and s: "justify_attempt team roles asg (orc k) = Returns (Inr ua)"
      by blast
    from justify_attempt_Inr [OF s] obtain v us where
      len: "length (assignments asg) = 10" and
      v: "orc k = Parsed v" "spec_justifications asg v" and
      ua: "ua = asg\<lparr>assignments := us, justificationsGenerated := True\<rparr>" and
      same: "map (\<lambda>p. (applicantId p, roleId p, score p)) us
             = map (\<lambda>p. (applicantId p, roleId p, score p)) (assignments asg)" and
      filled: "\<forall>p\<in>set us. \<exists>t. justification p = Some t \<and> t \<noteq> [] \<and> length t \<le> 500"
      by blast
    from justify_attempt_exact [OF s] obtain items where
      items: "orc k = Parsed (JArr items)" and
      exact: "ua = asg\<lparr>assignments := map (\<lambda>p. p\<lparr>justification := given_text items (applicantId p)\<rparr>)
                                         (assignments asg),
                       justificationsGenerated := True\<rparr>"
      by blast
    from items v have vi: "v = JArr items" by simp
    from ua exact have us: "us = map (\<lambda>p. p\<lparr>justification := given_text items (applicantId p)\<rparr>)
                                    (assignments asg)"
    proof -
      from ua have "assignments ua = us" by simp
      moreover from exact have "assignments ua
        = map (\<lambda>p. p\<lparr>justification := given_text items (applicantId p)\<rparr>) (assignments asg)"
        by simp
      ultimately show ?thesis by simp
    qed
    have given: "\<exists>t. given_text items (applicantId p) = Some t \<and> t \<noteq> [] \<and> length t \<le> 500"
      if p: "p \<in> set (assignments asg)" for p
    proof -
      from p have "p\<lparr>justification := given_text items (applicantId p)\<rparr> \<in> set us"
        unfolding us by simp
      with filled show ?thesis by fastforce
    qed
    from same have lu: "length us = length (assignments asg)" by (rule map_eq_imp_length_eq)
    have c1: "\<exists>k\<le>3. \<exists>items.
          attempts (generateJustifications team roles asg orc) = k + 1
          \<and> orc k = Parsed (JArr items)
          \<and> spec_justifications asg (JArr items)
          \<and> ua = asg\<lparr>assignments := map (\<lambda>p. p\<lparr>justification := given_text items (applicantId p)\<rparr>)
                                       (assignments asg),
                     justificationsGenerated := True\<rparr>
          \<and> (\<forall>p\<in>set (assignments asg).
                \<exists>t. given_text items (applicantId p) = Some t \<and> t \<noteq> [] \<and> length t \<le> 500)"
      using k n items v(2) [unfolded vi] exact given by blast
    have c2: "justificationsGenerated ua" "length (assignments ua) = 10"
      "ta_teamId ua = ta_teamId asg" "totalScore ua = totalScore asg"
      "ta_generatedAt ua = ta_generatedAt asg"
      using lu len by (simp_all add: ua)
    have c3: "\<forall>p\<in>set (assignments ua). \<exists>t. justification p = Some t \<and> t \<noteq> [] \<and> length t \<le> 500"
      using filled by (simp add: ua)
    have c4: "map (\<lambda>p. (applicantId p, roleId p, score p)) (assignments ua)
          = map (\<lambda>p. (applicantId p, roleId p, score p)) (assignments asg)"
      using same by (simp add: ua)
    from c1 len c2 c3 c4 show ?thesis by (intro conjI)
  qed
  have b: "\<exists>e. outcome (generateJustifications team roles asg orc) = Inl e"
    if n: "\<forall>k\<le>3. \<forall>v. orc k = Parsed v \<longrightarrow> \<not> spec_justifications asg v"
  proof (cases "outcome (generateJustifications team roles asg orc)")
    case (Inl e)
    then show ?thesis by blast
  next
    case (Inr ua)
    from a [OF this] n show ?thesis by blast
  qed
  from a b show ?thesis by blast
qed

lemma ex_justified_run:
  "generateJustifications ex_team ex_roles ex_assignment oracle_justifies
   = \<lparr>outcome = Inr ex_justified, attempts = 1, delays = []\<rparr>"
  by code_simp

lemma ex_justified_texts:
  "map justification (assignments ex_justified)
   = [Some ''Fits role 0.'', Some ''Fits role 1.'', Some ''Fits role 2.'', Some ''Fits role 3.'',
      Some ''Fits role 4.'', Some ''Fits role 5.'', Some ''Fits role 6.'', Some ''Fits role 7.'',
      Some ''Fits role 8.'', Some ''Fits role 9.'']"
  by code_simp

theorem justifications_all_or_nothing_witness:
  "outcome (generateJustifications ex_team ex_roles ex_assignment oracle_justifies) = Inr ex_justified
   \<and> attempts (generateJustifications ex_team ex_roles ex_assignment oracle_justifies) = 1
   \<and> oracle_justifies 0 = Parsed (JArr ex_items)
   \<and> ex_justified
     = ex_assignment\<lparr>assignments := map (\<lambda>p. p\<lparr>justification := given_text ex_items (applicantId p)\<rparr>)
                                         (assignments ex_assignment),
                     justificationsGenerated := True\<rparr>
   \<and> map justification (assignments ex_justified)
     = [Some ''Fits role 0.'', Some ''Fits role 1.'', Some ''Fits role 2.'', Some ''Fits role 3.'',
        Some ''Fits role 4.'', Some ''Fits role 5.'', Some ''Fits role 6.'', Some ''Fits role 7.'',
        Some ''Fits role 8.'', Some ''Fits role 9.'']
   \<and> justificationsGenerated ex_justified
   \<and> length (assignments ex_justified) = 10"
proof -
  have o: "outcome (generateJustifications ex_team ex_roles ex_assignment oracle_justifies) = Inr ex_justified"
    and n: "attempts (generateJustifications ex_team ex_roles ex_assignment oracle_justifies) = 1"
    by (simp_all add: ex_justified_run)
  have r: "oracle_justifies k = Parsed (JArr ex_items)" for k
    by (simp add: oracle_justifies_def ex_justifications_def)
  from justifications_all_or_nothing [of ex_team ex_roles ex_assignment oracle_justifies] o
  obtain k items where
    i: "oracle_justifies k = Parsed (JArr items)" and
    e: "ex_justified
        = ex_assignment\<lparr>assignments := map (\<lambda>p. p\<lparr>justification := given_text items (applicantId p)\<rparr>)
                                            (assignments ex_assignment),
                        justificationsGenerated := True\<rparr>" and
    g: "justificationsGenerated ex_justified" and
    l: "length (assignments ex_justified) = 10"
    by blast
  from i r have "items = ex_items" by simp
  with o n r e g l ex_justified_texts show ?thesis by (simp only: simp_thms)
qed

section \<open>Properties of the pipeline and the stores\<close>

lemma map_of_map_set: "map_of (map_set k v ps) k' = (if k' = k then Some v else map_of ps k')"
  by (induction ps) auto

lemma get_updateSessionStatus:
  "getAssignmentSession sid' (updateSessionStatus sid s st)
   = (if sid' = sid then map_option (\<lambda>x. x\<lparr>status := s\<rparr>) (getAssignmentSession sid st)
      else getAssignmentSession sid' st)"
  by (auto simp: getAssignmentSession_def updateSessionStatus_def map_of_map_set split: option.splits)

lemma get_modify_session:
  "getAssignmentSession sid' (modify_session sid f st)
   = (if sid' = sid then map_option f (getAssignmentSession sid st)
      else getAssignmentSession sid' st)"
  by (auto simp: getAssignmentSession_def modify_session_def map_of_map_set split: option.splits)

lemma new_session_Inr:
  "new_session u now teamId ph roles st = (r, st1) \<Longrightarrow>
   \<exists>session. r = Inr session \<and> getAssignmentSession (as_id session) st1 = Some session
     \<and> status session = pending \<and> assignment session = None \<and> scoreMatrix session = None
     \<and> as_teamId session = teamId
     \<and> teams st1 = teams st \<and> groups st1 = groups st"
  by (auto simp: new_session_def getAssignmentSession_def map_of_map_set Let_def)

lemma createAssignmentSession_Inr:
  assumes "createAssignmentSession u now teamId ph customRoles st = (Inr session, st1)"
  shows "getAssignmentSession (as_id session) st1 = Some session
     \<and> status session = pending \<and> assignment session = None \<and> scoreMatrix session = None
     \<and> as_teamId session = teamId
     \<and> teams st1 = teams st \<and> groups st1 = groups st"
  using assms
  by (auto simp: createAssignmentSession_def split: option.splits if_splits dest!: new_session_Inr)

lemma handler_begin_create:
  assumes "handler_begin verb apiKey body e st = (Inr (session, team), st1)"
  shows "\<exists>req st0. createAssignmentSession (uuid e) (created_at e) (req_teamId req) (req_phase req)
                      (req_customRoles req) st = (Inr session, st0)
                   \<and> st1 = updateSessionStatus (as_id session) scoring st0
                   \<and> body = Inr req \<and> getTeam (req_teamId req) st = Some team"
proof -
  from assms obtain req where b: "body = Inr req" and t: "getTeam (req_teamId req) st = Some team"
    by (auto simp: handler_begin_def split: if_splits sum.splits option.splits prod.splits)
  from assms b t obtain st0 where
    c: "createAssignmentSession (uuid e) (created_at e) (req_teamId req) (req_phase req) (req_customRoles req) st
        = (Inr session, st0)" and s: "st1 = updateSessionStatus (as_id session) scoring st0"
    by (auto simp: handler_begin_def split: if_splits sum.splits option.splits prod.splits)
  with b t show ?thesis by blast
qed

lemma handler_begin_Inr:
  assumes "handler_begin verb apiKey body e st = (Inr (session, team), st1)"
  shows "getAssignmentSession (as_id session) st1 = Some (session\<lparr>status := scoring\<rparr>)
     \<and> assignment session = None
     \<and> (\<exists>req. body = Inr req \<and> getTeam (req_teamId req) st = Some team \<and> as_teamId session = req_teamId req)"
proof -
  from assms obtain req where b: "body = Inr req" and t: "getTeam (req_teamId req) st = Some team"
    by (auto simp: handler_begin_def split: if_splits sum.splits option.splits prod.splits)
  from assms b t obtain st0 where
    c: "createAssignmentSession (uuid e) (created_at e) (req_teamId req) (req_phase req) (req_customRoles req) st
        = (Inr session, st0)" and s: "st1 = updateSessionStatus (as_id session) scoring st0"
    by (auto simp: handler_begin_def split: if_splits sum.splits option.splits prod.splits)
  from createAssignmentSession_Inr [OF c] b t show ?thesis
    by (simp add: s get_updateSessionStatus)
qed

text \<open>
  Claim C5. In a single-team run that got as far as creating its assignment session,
  if scoring fails or matching fails then the caller receives a 500 error response,
  no background task is launched, and the session is left with status \<open>pending\<close> and
  no assignment.
\<close>

theorem failed_run_reverts_to_pending:
  assumes start: "handler_begin verb apiKey body e st = (Inr (session, team), st1)"
    and fail: "(\<exists>err. outcome (generateScoreMatrix team (as_roles session) (scoring_oracle e) (scoring_clock e)) = Inl err)
             \<or> (\<exists>sm err. outcome (generateScoreMatrix team (as_roles session) (scoring_oracle e) (scoring_clock e)) = Inr sm
                  \<and> assignRoles (solver e) (assigned_at e) team (as_roles session) sm = Inl err)"
  shows "\<exists>resp st2 s err.
           handler verb apiKey body e st = ((resp, None), st2)
           \<and> resp = error_response 500 err
           \<and> getAssignmentSession (as_id session) st2 = Some s
           \<and> status s = pending \<and> assignment s = None"
proof -
  note b = handler_begin_Inr [OF start]
  have h: "handler verb apiKey body e st = handler_resume session team e st1"
    by (simp add: handler_def start)
  from fail show ?thesis
  proof
    assume "\<exists>err. outcome (generateScoreMatrix team (as_roles session) (scoring_oracle e) (scoring_clock e)) = Inl err"
    then obtain err where
      "outcome (generateScoreMatrix team (as_roles session) (scoring_oracle e) (scoring_clock e)) = Inl err" ..
    then have "handler_resume session team e st1
          = ((error_response 500 (''Scoring failed: '' @ err), None),
             updateSessionStatus (as_id session) pending st1)"
      by (simp add: handler_resume_def)
    with h b show ?thesis by (auto simp: get_updateSessionStatus)
  next
    assume "\<exists>sm err. outcome (generateScoreMatrix team (as_roles session) (scoring_oracle e) (scoring_clock e)) = Inr sm
                  \<and> assignRoles (solver e) (assigned_at e) team (as_roles session) sm = Inl err"
    then obtain sm err where
      "outcome (generateScoreMatrix team (as_roles session) (scoring_oracle e) (scoring_clock e)) = Inr sm"
      "assignRoles (solver e) (assigned_at e) team (as_roles session) sm = Inl err" by blast
    then have "handler_resume session team e st1
          = ((error_response 500 (''Assignment failed: '' @ err), None),
             updateSessionStatus (as_id session) pending
               (updateSessionStatus (as_id session) assigning
                  (modify_session (as_id session) (\<lambda>s. s\<lparr>scoreMatrix := Some sm\<rparr>) st1)))"
      by (simp add: handler_resume_def Let_def)
    with h b show ?thesis by (auto simp: get_updateSessionStatus get_modify_session)
  qed
qed

lemma ex_begin_nine_rows:
  "handler_begin ''POST'' (Some ''key'') (Inr ex_request) ex_env_nine_rows ex_store
   = (Inr (ex_session, ex_team), ex_store_scoring)"
  by code_simp

lemma ex_nine_rows_fails:
  "outcome (generateScoreMatrix ex_team (as_roles ex_session) (scoring_oracle ex_env_nine_rows)
      (scoring_clock ex_env_nine_rows))
   = Inl ''Scoring failed after 0 retries: Score matrix must be 10x10''"
  by code_simp

lemma ex_handler_ok:
  "handler ''POST'' (Some ''key'') (Inr ex_request) ex_env ex_store
   = ((\<lparr>res_status = 200, res_success = True,
        res_data = Some \<lparr>data_sessionId = ''role-10'', data_assignment = ex_assignment,
                         justificationsPending = True\<rparr>,
        res_error = None,
        res_message = Some ''Team assigned successfully! AI justifications are being generated...''\<rparr>,
       Some ex_task), ex_store_justifying)"
  by code_simp

theorem failed_run_reverts_to_pending_witness:
  "handler_begin ''POST'' (Some ''key'') (Inr ex_request) ex_env_nine_rows ex_store
     = (Inr (ex_session, ex_team), ex_store_scoring)
   \<and> outcome (generateScoreMatrix ex_team (as_roles ex_session) (scoring_oracle ex_env_nine_rows)
        (scoring_clock ex_env_nine_rows))
       = Inl ''Scoring failed after 0 retries: Score matrix must be 10x10''
   \<and> (\<exists>resp st2 s err.
         handler ''POST'' (Some ''key'') (Inr ex_request) ex_env_nine_rows ex_store = ((resp, None), st2)
         \<and> resp = error_response 500 err
         \<and> getAssignmentSession (as_id ex_session) st2 = Some s
         \<and> status s = pending \<and> assignment s = None)"
proof -
  have f: "(\<exists>err. outcome (generateScoreMatrix ex_team (as_roles ex_session)
                     (scoring_oracle ex_env_nine_rows) (scoring_clock ex_env_nine_rows)) = Inl err)
           \<or> (\<exists>sm err. outcome (generateScoreMatrix ex_team (as_roles ex_session)
                     (scoring_oracle ex_env_nine_rows) (scoring_clock ex_env_nine_rows)) = Inr sm
                \<and> assignRoles (solver ex_env_nine_rows) (assigned_at ex_env_nine_rows) ex_team
                     (as_roles ex_session) sm = Inl err)"
    using ex_nine_rows_fails by blast
  from failed_run_reverts_to_pending [OF ex_begin_nine_rows f] ex_begin_nine_rows ex_nine_rows_fails
  show ?thesis by blast
qed

lemma handler_resume_task:
  assumes "handler_resume session team e st1 = ((resp, Some t), st)"
    and "getAssignmentSession (as_id session) st1 = Some s1"
  shows "\<exists>s a. task_sessionId t = as_id session \<and> task_assignment t = a
           \<and> getAssignmentSession (as_id session) st = Some s
           \<and> status s = justifying \<and> assignment s = Some a \<and> \<not> justificationsGenerated a"
proof -
  from assms(1) obtain sm where
    sm: "outcome (generateScoreMatrix team (as_roles session) (scoring_oracle e) (scoring_clock e)) = Inr sm"
    by (cases "outcome (generateScoreMatrix team (as_roles session) (scoring_oracle e) (scoring_clock e))")
       (auto simp: handler_resume_def)
  from assms(1) sm obtain a where
    a: "assignRoles (solver e) (assigned_at e) team (as_roles session) sm = Inr a"
    by (cases "assignRoles (solver e) (assigned_at e) team (as_roles session) sm")
       (auto simp: handler_resume_def Let_def)
  from a have j: "\<not> justificationsGenerated a"
    by (auto simp: assignRoles_def split: if_splits sum.splits prod.splits)
  from assms(1) sm a have
    t: "t = \<lparr>task_sessionId = as_id session, task_team = team, task_roles = as_roles session,
            task_assignment = a\<rparr>" and
    st: "st = updateSessionStatus (as_id session) justifying
           (modify_session (as_id session) (\<lambda>s. s\<lparr>assignment := Some a\<rparr>)
             (updateSessionStatus (as_id session) assigning
               (modify_session (as_id session) (\<lambda>s. s\<lparr>scoreMatrix := Some sm\<rparr>) st1)))"
    by (auto simp: handler_resume_def Let_def)
  show ?thesis
    using assms(2) j by (simp add: t st get_updateSessionStatus get_modify_session)
qed

lemma background_completes:
  assumes "getAssignmentSession (task_sessionId t) st = Some s"
  shows "\<exists>s'. getAssignmentSession (task_sessionId t) (generateJustificationsBackground t orc st) = Some s'
           \<and> status s' = complete
           \<and> ((\<exists>err. outcome (generateJustifications (task_team t) (task_roles t) (task_assignment t) orc) = Inl err)
                \<longrightarrow> assignment s' = assignment s)
           \<and> (\<forall>ua. outcome (generateJustifications (task_team t) (task_roles t) (task_assignment t) orc) = Inr ua
                \<longrightarrow> assignment s' = Some ua)"
  using assms
  by (cases "outcome (generateJustifications (task_team t) (task_roles t) (task_assignment t) orc)")
     (simp_all add: generateJustificationsBackground_def get_updateSessionStatus get_modify_session)

lemma get_settle_item:
  "getAssignmentSession sid (settle_item results st it)
   = (if sid = item_sessionId it
      then map_option (\<lambda>s. case found_update results it of
                              Some ua \<Rightarrow> s\<lparr>assignment := Some ua, status := complete\<rparr>
                            | None \<Rightarrow> s\<lparr>status := complete\<rparr>) (getAssignmentSession sid st)
      else getAssignmentSession sid st)"
  by (auto simp: settle_item_def get_updateSessionStatus get_modify_session split: option.splits)

lemma settle_all:
  assumes "getAssignmentSession sid st = Some s"
  shows "\<exists>s'. getAssignmentSession sid (foldl (settle_item results) st items) = Some s'
           \<and> (sid \<in> item_sessionId ` set items \<or> status s = complete \<longrightarrow> status s' = complete)
           \<and> ((\<forall>it\<in>set items. item_sessionId it = sid \<longrightarrow> found_update results it = None)
                \<longrightarrow> assignment s' = assignment s)"
  using assms
proof (induction items arbitrary: st s)
  case Nil
  then show ?case by simp
next
  case (Cons it items)
  show ?case
  proof (cases "sid = item_sessionId it")
    case True
    let ?s1 = "case found_update results it of
                 Some ua \<Rightarrow> s\<lparr>assignment := Some ua, status := complete\<rparr>
               | None \<Rightarrow> s\<lparr>status := complete\<rparr>"
    have g: "getAssignmentSession sid (settle_item results st it) = Some ?s1"
      using Cons.prems True by (simp add: get_settle_item)
    have c: "status ?s1 = complete" by (simp split: option.splits)
    from Cons.IH [OF g] c obtain s' where
      s': "getAssignmentSession sid (foldl (settle_item results) (settle_item results st it) items) = Some s'"
        "status s' = complete"
        "(\<forall>x\<in>set items. item_sessionId x = sid \<longrightarrow> found_update results x = None)
           \<longrightarrow> assignment s' = assignment ?s1"
      by blast
    have "assignment s' = assignment s"
      if "\<forall>x\<in>set (it # items). item_sessionId x = sid \<longrightarrow> found_update results x = None"
    proof -
      from that True have "found_update results it = None" by simp
      then have "assignment ?s1 = assignment s" by simp
      with s'(3) that show ?thesis by simp
    qed
    with s' show ?thesis by simp
  next
    case False
    have g: "getAssignmentSession sid (settle_item results st it) = Some s"
      using Cons.prems False by (simp add: get_settle_item)
    from Cons.IH [OF g] False show ?thesis by simp
  qed
qed

lemma complete_all:
  assumes "getAssignmentSession sid st = Some s"
  shows "\<exists>s'. getAssignmentSession sid
                 (foldl (\<lambda>s it. updateSessionStatus (item_sessionId it) complete s) st items) = Some s'
           \<and> (sid \<in> item_sessionId ` set items \<or> status s = complete \<longrightarrow> status s' = complete)
           \<and> assignment s' = assignment s"
  using assms
proof (induction items arbitrary: st s)
  case Nil
  then show ?case by simp
next
  case (Cons it items)
  show ?case
  proof (cases "sid = item_sessionId it")
    case True
    have g: "getAssignmentSession sid (updateSessionStatus (item_sessionId it) complete st)
             = Some (s\<lparr>status := complete\<rparr>)"
      using Cons.prems True by (simp add: get_updateSessionStatus)
    from Cons.IH [OF g] show ?thesis by auto
  next
    case False
    have g: "getAssignmentSession sid (updateSessionStatus (item_sessionId it) complete st) = Some s"
      using Cons.prems False by (simp add: get_updateSessionStatus)
    from Cons.IH [OF g] False show ?thesis by simp
  qed
qed

lemma batch_background_completes:
  assumes "it \<in> set items" and "getAssignmentSession (item_sessionId it) st = Some s"
  shows "\<exists>s'. getAssignmentSession (item_sessionId it)
                 (generateBatchJustificationsBackground items justificationResult st) = Some s'
           \<and> status s' = complete
           \<and> ((\<forall>results. justificationResult = Inr results \<longrightarrow>
                  (\<forall>x\<in>set items. item_sessionId x = item_sessionId it \<longrightarrow> found_update results x = None))
                \<longrightarrow> assignment s' = assignment s)"
proof (cases justificationResult)
  case (Inl err)
  from complete_all [OF assms(2), of items] assms(1) Inl show ?thesis
    by (auto simp: generateBatchJustificationsBackground_def)
next
  case (Inr results)
  from settle_all [OF assms(2), of results items] assms(1) Inr show ?thesis
    by (auto simp: generateBatchJustificationsBackground_def)
qed

text \<open>
  Claim C6. A run that launches the background task leaves its session with status
  \<open>justifying\<close> and an assignment whose \<open>justificationsGenerated\<close> is false. Whenever
  the task finishes on a store that still holds the session, the session has status
  \<open>complete\<close>, whether the justifier succeeded or failed; when it failed the session's
  assignment is untouched, so on the store the run left it is still the one with
  \<open>justificationsGenerated\<close> false. The background phase of a batch does the same for
  every session it was launched for, whatever the batch justifier returns or throws.
\<close>

theorem justification_phase_completes:
  assumes run: "handler verb apiKey body e st0 = ((resp, Some t), st)"
  shows "(\<exists>s a. getAssignmentSession (task_sessionId t) st = Some s
           \<and> status s = justifying \<and> assignment s = Some a \<and> task_assignment t = a
           \<and> \<not> justificationsGenerated a
           \<and> (\<forall>orc st' s1. getAssignmentSession (task_sessionId t) st' = Some s1 \<longrightarrow>
                (\<exists>s'. getAssignmentSession (task_sessionId t) (generateJustificationsBackground t orc st') = Some s'
                   \<and> status s' = complete
                   \<and> ((\<exists>err. outcome (generateJustifications (task_team t) (task_roles t) a orc) = Inl err)
                        \<longrightarrow> assignment s' = assignment s1)
                   \<and> (\<forall>ua. outcome (generateJustifications (task_team t) (task_roles t) a orc) = Inr ua
                        \<longrightarrow> assignment s' = Some ua)))
           \<and> (\<forall>orc. (\<exists>err. outcome (generateJustifications (task_team t) (task_roles t) a orc) = Inl err) \<longrightarrow>
                (\<exists>s'. getAssignmentSession (task_sessionId t) (generateJustificationsBackground t orc st) = Some s'
                   \<and> status s' = complete \<and> assignment s' = Some a \<and> \<not> justificationsGenerated a)))
       \<and> (\<forall>items justificationResult st' s1 it.
             it \<in> set items \<and> getAssignmentSession (item_sessionId it) st' = Some s1 \<longrightarrow>
             (\<exists>s'. getAssignmentSession (item_sessionId it)
                     (generateBatchJustificationsBackground items justificationResult st') = Some s'
                \<and> status s' = complete
                \<and> ((\<forall>results. justificationResult = Inr results \<longrightarrow>
                       (\<forall>x\<in>set items. item_sessionId x = item_sessionId it \<longrightarrow> found_update results x = None))
                     \<longrightarrow> assignment s' = assignment s1)))"
proof -
  from run obtain session team st1 where
    b: "handler_begin verb apiKey body e st0 = (Inr (session, team), st1)" and
    r: "handler_resume session team e st1 = ((resp, Some t), st)"
    by (auto simp: handler_def split: prod.splits sum.splits)
  from handler_begin_Inr [OF b] have
    g: "getAssignmentSession (as_id session) st1 = Some (session\<lparr>status := scoring\<rparr>)" by simp
  from handler_resume_task [OF r g] obtain s a where
    sid: "task_sessionId t = as_id session" and ta: "task_assignment t = a" and
    s: "getAssignmentSession (as_id session) st = Some s" "status s = justifying"
       "assignment s = Some a" and j: "\<not> justificationsGenerated a"
    by blast
  have gen: "\<exists>s'. getAssignmentSession (task_sessionId t) (generateJustificationsBackground t orc st') = Some s'
                   \<and> status s' = complete
                   \<and> ((\<exists>err. outcome (generateJustifications (task_team t) (task_roles t) a orc) = Inl err)
                        \<longrightarrow> assignment s' = assignment s1)
                   \<and> (\<forall>ua. outcome (generateJustifications (task_team t) (task_roles t) a orc) = Inr ua
                        \<longrightarrow> assignment s' = Some ua)"
    if "getAssignmentSession (task_sessionId t) st' = Some s1" for orc st' s1
    using background_completes [OF that, of orc] unfolding ta .
  have fail: "\<exists>s'. getAssignmentSession (task_sessionId t) (generateJustificationsBackground t orc st) = Some s'
                   \<and> status s' = complete \<and> assignment s' = Some a \<and> \<not> justificationsGenerated a"
    if "\<exists>err. outcome (generateJustifications (task_team t) (task_roles t) a orc) = Inl err" for orc
    using gen [of st s orc] s that j unfolding sid by auto
  have single: "\<exists>s a. getAssignmentSession (task_sessionId t) st = Some s
           \<and> status s = justifying \<and> assignment s = Some a \<and> task_assignment t = a
           \<and> \<not> justificationsGenerated a
           \<and> (\<forall>orc st' s1. getAssignmentSession (task_sessionId t) st' = Some s1 \<longrightarrow>
                (\<exists>s'. getAssignmentSession (task_sessionId t) (generateJustificationsBackground t orc st') = Some s'
                   \<and> status s' = complete
                   \<and> ((\<exists>err. outcome (generateJustifications (task_team t) (task_roles t) a orc) = Inl err)
                        \<longrightarrow> assignment s' = assignment s1)
                   \<and> (\<forall>ua. outcome (generateJustifications (task_team t) (task_roles t) a orc) = Inr ua
                        \<longrightarrow> assignment s' = Some ua)))
           \<and> (\<forall>orc. (\<exists>err. outcome (generateJustifications (task_team t) (task_roles t) a orc) = Inl err) \<longrightarrow>
                (\<exists>s'. getAssignmentSession (task_sessionId t) (generateJustificationsBackground t orc st) = Some s'
                   \<and> status s' = complete \<and> assignment s' = Some a \<and> \<not> justificationsGenerated a))"
    using s j ta gen fail unfolding sid by blast
  from single batch_background_completes show ?thesis by blast
qed

lemma ex_silent_fails:
  "outcome (generateJustifications ex_team (as_roles ex_session) ex_assignment oracle_silent)
   = Inl ''Justification generation failed after 0 retries: No response content from LLM''"
  by code_simp

theorem justification_phase_completes_witness:
  "handler ''POST'' (Some ''key'') (Inr ex_request) ex_env ex_store
     = ((\<lparr>res_status = 200, res_success = True,
          res_data = Some \<lparr>data_sessionId = ''role-10'', data_assignment = ex_assignment,
                           justificationsPending = True\<rparr>,
          res_error = None,
          res_message = Some ''Team assigned successfully! AI justifications are being generated...''\<rparr>,
         Some ex_task), ex_store_justifying)
   \<and> (\<exists>s'. getAssignmentSession ''role-10'' (generateJustificationsBackground ex_task oracle_silent ex_store_justifying) = Some s'
         \<and> status s' = complete \<and> assignment s' = Some ex_assignment
         \<and> \<not> justificationsGenerated ex_assignment)"
proof -
  from justification_phase_completes [OF ex_handler_ok] obtain s a where
    a: "task_assignment ex_task = a" and
    f: "\<forall>orc. (\<exists>err. outcome (generateJustifications (task_team ex_task) (task_roles ex_task) a orc) = Inl err) \<longrightarrow>
          (\<exists>s'. getAssignmentSession (task_sessionId ex_task) (generateJustificationsBackground ex_task orc ex_store_justifying) = Some s'
             \<and> status s' = complete \<and> assignment s' = Some a \<and> \<not> justificationsGenerated a)"
    by blast
  from a have a': "a = ex_assignment" by (simp add: ex_task_def)
  have "\<exists>err. outcome (generateJustifications (task_team ex_task) (task_roles ex_task) a oracle_silent) = Inl err"
    unfolding a' using ex_silent_fails by (simp add: ex_task_def)
  with f have "\<exists>s'. getAssignmentSession (task_sessionId ex_task) (generateJustificationsBackground ex_task oracle_silent ex_store_justifying) = Some s'
             \<and> status s' = complete \<and> assignment s' = Some a \<and> \<not> justificationsGenerated a"
    by blast
  then show ?thesis using ex_handler_ok unfolding a' by (simp add: ex_task_def)
qed

text \<open>
  Claim C9 as stated asks that a second trigger on a team with a run in flight be
  rejected or queued. On the example store, a second request for the same team,
  arriving while the first run awaits its scores, starts a second run: the team then
  has two sessions with status \<open>scoring\<close>.
\<close>

theorem second_trigger_counterexample:
  "map (\<lambda>(sid, s). (as_teamId s, status s))
     (sessions (snd (handler_begin ''POST'' (Some ''key'') (Inr ex_request) (ex_env\<lparr>uuid := ex_uuid2\<rparr>)
                  (snd (handler_begin ''POST'' (Some ''key'') (Inr ex_request) ex_env ex_store)))))
   = [(''team-1'', scoring), (''team-1'', scoring)]"
  by code_simp

lemma validateActiveSession_sessions [simp]:
  "validateActiveSession gid (st\<lparr>sessions := ss\<rparr>) = validateActiveSession gid st"
  by (simp add: validateActiveSession_def)

lemma createAssignmentSession_ignores_sessions:
  "fst (createAssignmentSession u now teamId ph customRoles (st\<lparr>sessions := ss\<rparr>))
   = fst (createAssignmentSession u now teamId ph customRoles st)"
  by (simp add: createAssignmentSession_def new_session_def Let_def split: option.splits)

lemma set_map_set: "{p \<in> set ps. fst p \<noteq> k} \<subseteq> set (map_set k v ps)"
  by (induction ps) auto

text \<open>
  Claim C9, amended. Whether a trigger starts a run does not depend on the assignment
  sessions that exist: \<open>createAssignmentSession\<close> and the start of the handler give the
  same answer whatever the session map holds. A trigger that starts puts its new
  session in status \<open>scoring\<close> and leaves every other session in the map as it was.
\<close>

theorem trigger_ignores_running_sessions:
  "fst (createAssignmentSession u now teamId ph customRoles (st\<lparr>sessions := ss\<rparr>))
     = fst (createAssignmentSession u now teamId ph customRoles st)
   \<and> fst (handler_begin verb apiKey body e (st\<lparr>sessions := ss\<rparr>))
     = fst (handler_begin verb apiKey body e st)
   \<and> (\<forall>session team st1. handler_begin verb apiKey body e st = (Inr (session, team), st1) \<longrightarrow>
         getAssignmentSession (as_id session) st1 = Some (session\<lparr>status := scoring\<rparr>)
         \<and> {p \<in> set (sessions st). fst p \<noteq> as_id session} \<subseteq> set (sessions st1))"
proof -
  note c = createAssignmentSession_ignores_sessions
  have h: "fst (handler_begin verb apiKey body e (st\<lparr>sessions := ss\<rparr>))
           = fst (handler_begin verb apiKey body e st)"
  proof (cases body)
    case (Inl err)
    then show ?thesis by (simp add: handler_begin_def)
  next
    case (Inr req)
    show ?thesis
    proof (cases "getTeam (req_teamId req) st")
      case None
      with Inr show ?thesis by (simp add: handler_begin_def getTeam_def)
    next
      case (Some team)
      obtain r1 s1 where r1: "createAssignmentSession (uuid e) (created_at e) (req_teamId req)
          (req_phase req) (req_customRoles req) (st\<lparr>sessions := ss\<rparr>) = (r1, s1)" by force
      obtain r2 s2 where r2: "createAssignmentSession (uuid e) (created_at e) (req_teamId req)
          (req_phase req) (req_customRoles req) st = (r2, s2)" by force
      from c [where u = "uuid e" and now = "created_at e" and teamId = "req_teamId req"
                and ph = "req_phase req" and customRoles = "req_customRoles req" and st = st and ss = ss]
        r1 r2
      have "r1 = r2" by simp
      with Inr Some r1 r2 show ?thesis
        by (cases r2) (simp_all add: handler_begin_def getTeam_def)
    qed
  qed
  have k: "getAssignmentSession (as_id session) st1 = Some (session\<lparr>status := scoring\<rparr>)
           \<and> {p \<in> set (sessions st). fst p \<noteq> as_id session} \<subseteq> set (sessions st1)"
    if b: "handler_begin verb apiKey body e st = (Inr (session, team), st1)" for session team st1
  proof -
    from handler_begin_create [OF b] obtain req :: AssignTeamRequest and st0 where
      cr: "createAssignmentSession (uuid e) (created_at e) (req_teamId req) (req_phase req)
             (req_customRoles req) st = (Inr session, st0)" and
      s1: "st1 = updateSessionStatus (as_id session) scoring st0"
      by blast
    from cr have s0: "sessions st0 = map_set (as_id session) session (sessions st)"
      by (auto simp: createAssignmentSession_def new_session_def Let_def split: option.splits if_splits)
    have "map_of (sessions st0) (as_id session) = Some session"
      by (simp add: s0 map_of_map_set)
    then have "sessions st1 = map_set (as_id session) (session\<lparr>status := scoring\<rparr>) (sessions st0)"
      by (simp add: s1 updateSessionStatus_def)
    moreover have "{p \<in> set (sessions st). fst p \<noteq> as_id session} \<subseteq> set (sessions st0)"
      unfolding s0 by (rule set_map_set)
    moreover have "{p \<in> set (sessions st0). fst p \<noteq> as_id session}
                   \<subseteq> set (map_set (as_id session) (session\<lparr>status := scoring\<rparr>) (sessions st0))"
      by (rule set_map_set)
    ultimately have "{p \<in> set (sessions st). fst p \<noteq> as_id session} \<subseteq> set (sessions st1)"
      by auto
    with handler_begin_Inr [OF b] show ?thesis by simp
  qed
  from c h k show ?thesis by blast
qed

lemma ex_second_begin:
  "handler_begin ''POST'' (Some ''key'') (Inr ex_request) (ex_env\<lparr>uuid := ex_uuid2\<rparr>) ex_store_scoring
   = (Inr (ex_session\<lparr>as_id := ''second-10'',
                       as_roles := map_index (default_role ex_uuid2) DEFAULT_ROLES\<rparr>, ex_team),
      ex_store\<lparr>sessions := [(''role-10'', ex_session\<lparr>status := scoring\<rparr>),
                              (''second-10'', ex_session\<lparr>as_id := ''second-10'',
                                  as_roles := map_index (default_role ex_uuid2) DEFAULT_ROLES,
                                  status := scoring\<rparr>)]\<rparr>)"
  by code_simp

theorem trigger_ignores_running_sessions_witness:
  "handler_begin ''POST'' (Some ''key'') (Inr ex_request) (ex_env\<lparr>uuid := ex_uuid2\<rparr>) ex_store_scoring
   = (Inr (ex_session\<lparr>as_id := ''second-10'',
                       as_roles := map_index (default_role ex_uuid2) DEFAULT_ROLES\<rparr>, ex_team),
      ex_store\<lparr>sessions := [(''role-10'', ex_session\<lparr>status := scoring\<rparr>),
                              (''second-10'', ex_session\<lparr>as_id := ''second-10'',
                                  as_roles := map_index (default_role ex_uuid2) DEFAULT_ROLES,
                                  status := scoring\<rparr>)]\<rparr>)
   \<and> (''role-10'', ex_session\<lparr>status := scoring\<rparr>)
       \<in> set (sessions (snd (handler_begin ''POST'' (Some ''key'') (Inr ex_request)
                                (ex_env\<lparr>uuid := ex_uuid2\<rparr>) ex_store_scoring)))
   \<and> getAssignmentSession ''second-10''
        (snd (handler_begin ''POST'' (Some ''key'') (Inr ex_request) (ex_env\<lparr>uuid := ex_uuid2\<rparr>) ex_store_scoring))
      = Some (ex_session\<lparr>as_id := ''second-10'',
                as_roles := map_index (default_role ex_uuid2) DEFAULT_ROLES, status := scoring\<rparr>)"
proof -
  let ?s = "ex_session\<lparr>as_id := ''second-10'', as_roles := map_index (default_role ex_uuid2) DEFAULT_ROLES\<rparr>"
  let ?st1 = "ex_store\<lparr>sessions := [(''role-10'', ex_session\<lparr>status := scoring\<rparr>),
                              (''second-10'', ?s\<lparr>status := scoring\<rparr>)]\<rparr>"
  from trigger_ignores_running_sessions
    [where st = ex_store_scoring and verb = "''POST''" and apiKey = "Some ''key''"
       and body = "Inr ex_request" and e = "ex_env\<lparr>uuid := ex_uuid2\<rparr>"]
  have "\<forall>session team st1. handler_begin ''POST'' (Some ''key'') (Inr ex_request)
            (ex_env\<lparr>uuid := ex_uuid2\<rparr>) ex_store_scoring = (Inr (session, team), st1) \<longrightarrow>
         getAssignmentSession (as_id session) st1 = Some (session\<lparr>status := scoring\<rparr>)
         \<and> {p \<in> set (sessions ex_store_scoring). fst p \<noteq> as_id session} \<subseteq> set (sessions st1)"
    by blast
  with ex_second_begin have
    g: "getAssignmentSession (as_id ?s) ?st1 = Some (?s\<lparr>status := scoring\<rparr>)" and
    k: "{p \<in> set (sessions ex_store_scoring). fst p \<noteq> as_id ?s} \<subseteq> set (sessions ?st1)"
    by blast+
  have "(''role-10'', ex_session\<lparr>status := scoring\<rparr>) \<in> {p \<in> set (sessions ex_store_scoring). fst p \<noteq> as_id ?s}"
    by (simp add: ex_store_scoring_def)
  with k have "(''role-10'', ex_session\<lparr>status := scoring\<rparr>) \<in> set (sessions ?st1)" by blast
  with g show ?thesis by (simp add: ex_second_begin)
qed

lemma foldl_delete_sessions:
  "sessions (foldl (\<lambda>s (sessionId, session). s\<lparr>sessions := map_delete sessionId (sessions s)\<rparr>) st xs)
     = filter (\<lambda>p. fst p \<notin> fst ` set xs) (sessions st)
   \<and> teams (foldl (\<lambda>s (sessionId, session). s\<lparr>sessions := map_delete sessionId (sessions s)\<rparr>) st xs) = teams st
   \<and> groups (foldl (\<lambda>s (sessionId, session). s\<lparr>sessions := map_delete sessionId (sessions s)\<rparr>) st xs) = groups st"
proof (induction xs arbitrary: st)
  case Nil
  then show ?case by simp
next
  case (Cons x xs)
  obtain k v where x: "x = (k, v)" by (cases x)
  show ?case
    using Cons.IH [of "st\<lparr>sessions := map_delete k (sessions st)\<rparr>"]
    by (auto simp: x map_delete_def intro: filter_cong)
qed

lemma kept_session_other_team:
  assumes "p \<in> set ss"
    and "fst p \<notin> fst ` set (filter (\<lambda>(sessionId, session). as_teamId session = teamId) ss)"
  shows "as_teamId (snd p) \<noteq> teamId"
proof
  assume "as_teamId (snd p) = teamId"
  with assms(1) have "p \<in> set (filter (\<lambda>(sessionId, session). as_teamId session = teamId) ss)"
    by (simp add: case_prod_beta)
  with assms(2) show False by blast
qed

lemma updateSessionStats_frame:
  "sessions (updateSessionStats now gid st) = sessions st \<and> teams (updateSessionStats now gid st) = teams st"
  by (simp add: updateSessionStats_def split: option.splits prod.splits)

text \<open>
  Claim C10. A successful \<open>resetTeam\<close> empties the team and clears its completeness
  flag, and removes every assignment session of that team, whatever its status:
  no remaining session belongs to the team, nothing is added, the sessions of other
  teams are exactly those kept, and \<open>getLatestSessionForTeam\<close> returns nothing.
\<close>

theorem resetTeam_deletes_sessions:
  assumes ok: "resetTeam now teamId st = (Inr (), st')"
  shows "(\<exists>team'. getTeam teamId st' = Some team' \<and> applicants team' = [] \<and> \<not> isComplete team')
       \<and> (\<forall>p\<in>set (sessions st'). as_teamId (snd p) \<noteq> teamId)
       \<and> set (sessions st') \<subseteq> set (sessions st)
       \<and> (distinct (map fst (sessions st)) \<longrightarrow>
            sessions st' = filter (\<lambda>p. as_teamId (snd p) \<noteq> teamId) (sessions st))
       \<and> getLatestSessionForTeam teamId st' = None"
proof -
  from ok obtain team where t: "map_of (teams st) teamId = Some team"
    and v: "validateActiveSession (team_sessionId team) st = None"
    by (auto simp: resetTeam_def split: option.splits)
  let ?st1 = "st\<lparr>teams := map_set teamId (team\<lparr>applicants := [], isComplete := False\<rparr>) (teams st)\<rparr>"
  let ?ts = "filter (\<lambda>(sessionId, session). as_teamId session = teamId) (sessions ?st1)"
  let ?st2 = "foldl (\<lambda>s (sessionId, session). s\<lparr>sessions := map_delete sessionId (sessions s)\<rparr>) ?st1 ?ts"
  from ok t v have st': "st' = updateSessionStats now (team_sessionId team) ?st2"
    by (simp add: resetTeam_def Let_def)
  note f = foldl_delete_sessions [of ?st1 ?ts]
  have se: "sessions st' = filter (\<lambda>p. fst p \<notin> fst ` set ?ts) (sessions st)"
    unfolding st' using f updateSessionStats_frame by simp
  have te: "teams st' = map_set teamId (team\<lparr>applicants := [], isComplete := False\<rparr>) (teams st)"
    unfolding st' using f updateSessionStats_frame by simp
  have a: "\<exists>team'. getTeam teamId st' = Some team' \<and> applicants team' = [] \<and> \<not> isComplete team'"
    by (simp add: getTeam_def te map_of_map_set)
  have b: "\<forall>p\<in>set (sessions st'). as_teamId (snd p) \<noteq> teamId"
  proof
    fix p assume p: "p \<in> set (sessions st')"
    then have "p \<in> set (sessions st)" "fst p \<notin> fst ` set ?ts" unfolding se by auto
    then show "as_teamId (snd p) \<noteq> teamId" using kept_session_other_team [of p "sessions st" teamId] by simp
  qed
  have c: "set (sessions st') \<subseteq> set (sessions st)" unfolding se by auto
  have d: "sessions st' = filter (\<lambda>p. as_teamId (snd p) \<noteq> teamId) (sessions st)"
    if dist: "distinct (map fst (sessions st))"
    unfolding se
  proof (rule filter_cong [OF refl])
    fix p assume p: "p \<in> set (sessions st)"
    show "(fst p \<notin> fst ` set ?ts) = (as_teamId (snd p) \<noteq> teamId)"
    proof
      assume "fst p \<notin> fst ` set ?ts"
      with p show "as_teamId (snd p) \<noteq> teamId" using kept_session_other_team [of p "sessions st" teamId] by simp
    next
      assume n: "as_teamId (snd p) \<noteq> teamId"
      show "fst p \<notin> fst ` set ?ts"
      proof
        assume "fst p \<in> fst ` set ?ts"
        then obtain q where q: "q \<in> set (sessions st)" "as_teamId (snd q) = teamId" "fst q = fst p"
          by (auto split: prod.splits)
        from dist p q(1) q(3) have "q = p"
          by (metis eq_key_imp_eq_value prod.collapse)
        with q(2) n show False by simp
      qed
    qed
  qed
  have "filter (\<lambda>s. as_teamId s = teamId) (map snd (sessions st')) = []"
    using b by (auto simp: filter_empty_conv)
  then have e: "getLatestSessionForTeam teamId st' = None"
    by (simp add: getLatestSessionForTeam_def)
  from a b c d e show ?thesis by blast
qed

lemma ex_reset:
  "resetTeam 9 ''team-1'' ex_store_complete
   = (Inr (), \<lparr>teams = [(''team-1'', ex_team\<lparr>applicants := [], isComplete := False\<rparr>)],
               sessions = [],
               groups = [(''group-1'', ex_group\<lparr>stats := \<lparr>totalTeams = 1, completeTeams = 0,
                            totalApplicants = 0, assignedTeams = 0, lastActivity = 9\<rparr>\<rparr>)]\<rparr>)"
  by code_simp

theorem resetTeam_deletes_sessions_witness:
  "getLatestSessionForTeam ''team-1'' ex_store_complete
     = Some (ex_session\<lparr>scoreMatrix := Some ex_matrix, assignment := Some ex_assignment, status := complete\<rparr>)
   \<and> fst (resetTeam 9 ''team-1'' ex_store_complete) = Inr ()
   \<and> sessions (snd (resetTeam 9 ''team-1'' ex_store_complete)) = []
   \<and> getLatestSessionForTeam ''team-1'' (snd (resetTeam 9 ''team-1'' ex_store_complete)) = None"
proof -
  have l: "getLatestSessionForTeam ''team-1'' ex_store_complete
     = Some (ex_session\<lparr>scoreMatrix := Some ex_matrix, assignment := Some ex_assignment, status := complete\<rparr>)"
    by code_simp
  from resetTeam_deletes_sessions [OF ex_reset] l show ?thesis by (simp add: ex_reset)
qed

end
